theory Spec2Isabelle
  imports Complex_Main "HOL-Library.Word"
begin

section \<open>Binary64 numbers\<close>

text \<open>
  The script \<^verbatim>\<open>app.py\<close> reads a CSV file into a pandas data frame and computes its figures
  on numpy scalars: 64-bit integers and binary64 floating-point numbers. A binary64 number
  is a finite number, one of the two zeros, one of the two infinities, or NaN. \<open>Fin x\<close>
  stands for the finite binary64 number with the value \<open>x\<close>, and \<open>Fin 0\<close> for the positive
  zero. Every arithmetic operation computes the exact result and rounds it to the nearest
  binary64 number, a tie to the one with the even significand; a result too large for
  binary64 becomes an infinity. No operation raises: a division by zero returns an infinity
  or NaN.
\<close>

datatype npfloat = Fin real | NegZero | PInf | NInf | NaN

datatype py_exception = IndexError | OverflowError | ValueError | TypeError | LinAlgError

text \<open>
  The script ends early in three ways: \<^verbatim>\<open>st.stop()\<close> after the warning that no file is
  uploaded, \<^verbatim>\<open>st.stop()\<close> after the error that a required column is missing, and an
  exception that nothing catches.
\<close>

datatype halt = NoUpload | MissingColumns | Raised py_exception

fun is_zero :: "npfloat \<Rightarrow> bool" where
  "is_zero (Fin x) = (x = 0)"
| "is_zero NegZero = True"
| "is_zero _ = False"

fun is_inf :: "npfloat \<Rightarrow> bool" where
  "is_inf PInf = True"
| "is_inf NInf = True"
| "is_inf _ = False"

fun sign_bit :: "npfloat \<Rightarrow> bool" where
  "sign_bit (Fin x) = (x < 0)"
| "sign_bit NegZero = True"
| "sign_bit NInf = True"
| "sign_bit _ = False"

fun val_of :: "npfloat \<Rightarrow> real" where
  "val_of (Fin x) = x"
| "val_of _ = 0"

definition zero_of :: "bool \<Rightarrow> npfloat" where
  "zero_of negative = (if negative then NegZero else Fin 0)"

definition inf_of :: "bool \<Rightarrow> npfloat" where
  "inf_of negative = (if negative then NInf else PInf)"

text \<open>
  Python's \<^verbatim>\<open>round\<close> and numpy's \<^verbatim>\<open>rint\<close> round to the nearest integer and a tie to the
  even neighbour.
\<close>

definition py_round :: "real \<Rightarrow> int" where
  "py_round x =
     (let f = \<lfloor>x\<rfloor>; d = x - of_int f in
      if d < 1 / 2 then f
      else if 1 / 2 < d then f + 1
      else if even f then f else f + 1)"

text \<open>
  Rounding a magnitude \<open>m\<close> to binary64. The binade of \<open>m\<close> is \<open>[2^e, 2^(e+1))\<close> with
  \<open>e = ilog2 m\<close>; binary64 numbers of that binade are the multiples of \<open>2^(e-52)\<close>, and
  below \<open>2^-1022\<close> (the subnormal range) the multiples of \<open>2^-1074\<close>. The largest finite
  number is \<open>2^1024 - 2^971\<close>; whatever rounds to \<open>2^1024\<close> or more is an infinity.
\<close>

fun bitlen :: "nat \<Rightarrow> nat" where
  "bitlen n = (if n = 0 then 0 else Suc (bitlen (n div 2)))"

declare bitlen.simps [simp del]

definition ilog2 :: "real \<Rightarrow> int" where
  "ilog2 m = (if 1 \<le> m then int (bitlen (nat \<lfloor>m\<rfloor>)) - 1
              else - int (bitlen (nat (\<lceil>1 / m\<rceil> - 1))))"

definition quantum :: "real \<Rightarrow> real" where
  "quantum m = 2 powi (max (ilog2 m) (- 1022) - 52)"

definition rounded_magnitude :: "real \<Rightarrow> real" where
  "rounded_magnitude m = of_int (py_round (m / quantum m)) * quantum m"

definition round_binary64 :: "bool \<Rightarrow> real \<Rightarrow> npfloat" where
  "round_binary64 negative m =
     (if m = 0 then zero_of negative
      else if 2 ^ 1024 \<le> m then inf_of negative
      else if 2 ^ 1024 \<le> rounded_magnitude m then inf_of negative
      else if rounded_magnitude m = 0 then zero_of negative
      else Fin (if negative then - rounded_magnitude m else rounded_magnitude m))"

text \<open>The binary64 number nearest to a real number, as a float literal denotes it.\<close>

definition f64 :: "real \<Rightarrow> npfloat" where
  "f64 x = round_binary64 (x < 0) \<bar>x\<bar>"

text \<open>A binary64 number that is not negative: a finite one is its own rounding.\<close>

definition nonneg_f64 :: "npfloat \<Rightarrow> bool" where
  "nonneg_f64 a = (case a of PInf \<Rightarrow> True | Fin v \<Rightarrow> 0 \<le> v \<and> f64 v = Fin v | _ \<Rightarrow> False)"

fun np_neg :: "npfloat \<Rightarrow> npfloat" where
  "np_neg (Fin a) = (if a = 0 then NegZero else Fin (- a))"
| "np_neg NegZero = Fin 0"
| "np_neg PInf = NInf"
| "np_neg NInf = PInf"
| "np_neg NaN = NaN"

text \<open>
  Addition. A sum of two zeros is the negative zero only when both are; adding a zero to
  a number that is not zero leaves it as it is; an exact sum of zero is the positive zero.
\<close>

definition np_add :: "npfloat \<Rightarrow> npfloat \<Rightarrow> npfloat" where
  "np_add a b =
     (if a = NaN \<or> b = NaN then NaN
      else if is_inf a then (if is_inf b \<and> a \<noteq> b then NaN else a)
      else if is_inf b then b
      else if is_zero a \<and> is_zero b then zero_of (sign_bit a \<and> sign_bit b)
      else if is_zero b then a
      else if is_zero a then b
      else if val_of a + val_of b = 0 then Fin 0
      else round_binary64 (val_of a + val_of b < 0) \<bar>val_of a + val_of b\<bar>)"

definition np_sub :: "npfloat \<Rightarrow> npfloat \<Rightarrow> npfloat" where
  "np_sub a b = np_add a (np_neg b)"

definition np_mul :: "npfloat \<Rightarrow> npfloat \<Rightarrow> npfloat" where
  "np_mul a b =
     (if a = NaN \<or> b = NaN then NaN
      else if is_inf a \<or> is_inf b then
        (if is_zero a \<or> is_zero b then NaN else inf_of (sign_bit a \<noteq> sign_bit b))
      else round_binary64 (sign_bit a \<noteq> sign_bit b) (\<bar>val_of a\<bar> * \<bar>val_of b\<bar>))"

text \<open>True division \<^verbatim>\<open>/\<close>: a zero divisor gives an infinity, or NaN for \<open>0 / 0\<close>.\<close>

definition np_div :: "npfloat \<Rightarrow> npfloat \<Rightarrow> npfloat" where
  "np_div a b =
     (if a = NaN \<or> b = NaN then NaN
      else if is_inf a then (if is_inf b then NaN else inf_of (sign_bit a \<noteq> sign_bit b))
      else if is_inf b then zero_of (sign_bit a \<noteq> sign_bit b)
      else if is_zero b then
        (if is_zero a then NaN else inf_of (sign_bit a \<noteq> sign_bit b))
      else round_binary64 (sign_bit a \<noteq> sign_bit b) (\<bar>val_of a\<bar> / \<bar>val_of b\<bar>))"

fun np_abs :: "npfloat \<Rightarrow> npfloat" where
  "np_abs (Fin a) = Fin \<bar>a\<bar>"
| "np_abs NegZero = Fin 0"
| "np_abs PInf = PInf"
| "np_abs NInf = PInf"
| "np_abs NaN = NaN"

text \<open>Comparisons: every comparison with NaN is false, and the two zeros are equal.\<close>

fun np_lt :: "npfloat \<Rightarrow> npfloat \<Rightarrow> bool" where
  "np_lt NaN _ = False"
| "np_lt _ NaN = False"
| "np_lt _ NInf = False"
| "np_lt PInf _ = False"
| "np_lt NInf _ = True"
| "np_lt _ PInf = True"
| "np_lt a b = (val_of a < val_of b)"

fun np_le :: "npfloat \<Rightarrow> npfloat \<Rightarrow> bool" where
  "np_le NaN _ = False"
| "np_le _ NaN = False"
| "np_le NInf _ = True"
| "np_le _ PInf = True"
| "np_le _ NInf = False"
| "np_le PInf _ = False"
| "np_le a b = (val_of a \<le> val_of b)"

definition np_ge :: "npfloat \<Rightarrow> npfloat \<Rightarrow> bool" where
  "np_ge a b = np_le b a"

text \<open>
  \<^verbatim>\<open>round(x)\<close> on a binary64 number returns a Python \<^verbatim>\<open>int\<close> and raises on an infinity
  (OverflowError) and on NaN (ValueError); \<^verbatim>\<open>round(x, 0)\<close> returns a binary64 number and
  keeps the sign of a result that is zero.
\<close>

fun np_round :: "npfloat \<Rightarrow> py_exception + int" where
  "np_round (Fin x) = Inr (py_round x)"
| "np_round NegZero = Inr 0"
| "np_round PInf = Inl OverflowError"
| "np_round NInf = Inl OverflowError"
| "np_round NaN = Inl ValueError"

fun round0 :: "npfloat \<Rightarrow> npfloat" where
  "round0 (Fin x) = (if py_round x = 0 then zero_of (x < 0) else Fin (of_int (py_round x)))"
| "round0 a = a"

section \<open>The data frame\<close>

text \<open>
  \<^verbatim>\<open>df\<close> is the parsed CSV: its column names and its columns. pandas gives a numeric column
  one dtype for all its cells: \<^verbatim>\<open>int64\<close> when every cell is a whole number that fits,
  \<^verbatim>\<open>uint64\<close> when a whole number exceeds the \<^verbatim>\<open>int64\<close> range, \<^verbatim>\<open>float64\<close> otherwise. A cell
  read from a column is a numpy scalar of that dtype. Other dtypes (text, booleans) are
  outside this model. All columns of a frame have the same length; \<^verbatim>\<open>len(df)\<close> is taken
  from the Revenue column. The script reads the columns Revenue and Orders only after it
  has checked that they exist.
\<close>

datatype npscalar = I64 "64 word" | U64 "64 word" | F64 npfloat

datatype column = Int64 "64 word list" | UInt64 "64 word list" | Float64 "npfloat list"

record dataframe =
  columns :: "string list"
  Month :: "string list"
  Revenue :: column
  Orders :: column

text \<open>
  The cells of a column as scalars. A finite cell of a \<^verbatim>\<open>float64\<close> column that is
  written as a decimal stands for the binary64 number nearest to it.
\<close>

fun canon :: "npfloat \<Rightarrow> npfloat" where
  "canon (Fin x) = f64 x"
| "canon a = a"

fun cells :: "column \<Rightarrow> npscalar list" where
  "cells (Int64 xs) = map I64 xs"
| "cells (UInt64 xs) = map U64 xs"
| "cells (Float64 xs) = map (\<lambda>x. F64 (canon x)) xs"

datatype dtype = int64 | uint64 | float64

fun dtype_of :: "npscalar \<Rightarrow> dtype" where
  "dtype_of (I64 _) = int64"
| "dtype_of (U64 _) = uint64"
| "dtype_of (F64 _) = float64"

definition len_df :: "dataframe \<Rightarrow> nat" where
  "len_df df = length (cells (Revenue df))"

text \<open>\<^verbatim>\<open>series.iloc[i]\<close>: a negative position counts from the end; out of bounds raises.\<close>

definition iloc :: "'a list \<Rightarrow> int \<Rightarrow> py_exception + 'a" where
  "iloc xs i =
     (if 0 \<le> i \<and> i < int (length xs) then Inr (xs ! nat i)
      else if i < 0 \<and> - int (length xs) \<le> i then Inr (xs ! nat (int (length xs) + i))
      else Inl IndexError)"

text \<open>
  Lines 41-46, the only validation in the script:
  \<^verbatim>\<open>
  required_columns = {"Month", "Revenue", "Orders"}
  if not required_columns.issubset(df.columns):
      st.sidebar.error("CSV must contain Month, Revenue, and Orders columns.")
      st.stop()
  \<close>
\<close>

definition required_columns :: "string list" where
  "required_columns = [''Month'', ''Revenue'', ''Orders'']"

definition issubset :: "string list \<Rightarrow> string list \<Rightarrow> bool" where
  "issubset xs ys = (set xs \<subseteq> set ys)"

section \<open>Arithmetic of numpy scalars\<close>

text \<open>
  A 64-bit integer becomes the nearest binary64 number when it meets a float or is
  divided. The difference of two integers of the same dtype is an integer of that dtype
  and wraps around modulo \<open>2^64\<close>; any other difference is taken in binary64. The true
  division \<^verbatim>\<open>/\<close> converts both operands to binary64 first.
\<close>

fun to_f64 :: "npscalar \<Rightarrow> npfloat" where
  "to_f64 (I64 w) = f64 (of_int (sint w))"
| "to_f64 (U64 w) = f64 (of_int (uint w))"
| "to_f64 (F64 x) = x"

fun np_minus :: "npscalar \<Rightarrow> npscalar \<Rightarrow> npscalar" where
  "np_minus (I64 a) (I64 b) = I64 (a - b)"
| "np_minus (U64 a) (U64 b) = U64 (a - b)"
| "np_minus a b = F64 (np_sub (to_f64 a) (to_f64 b))"

definition np_truediv :: "npscalar \<Rightarrow> npscalar \<Rightarrow> npfloat" where
  "np_truediv a b = np_div (to_f64 a) (to_f64 b)"

section \<open>KPI calculations\<close>

text \<open>
  Lines 81-91:
  \<^verbatim>\<open>
  current_revenue = df["Revenue"].iloc[-1]
  previous_revenue = df["Revenue"].iloc[-2]
  mom_change = ((current_revenue - previous_revenue) / previous_revenue) * 100

  current_orders = df["Orders"].iloc[-1]
  previous_orders = df["Orders"].iloc[-2]
  order_change = ((current_orders - previous_orders) / previous_orders) * 100

  current_aov = current_revenue / current_orders
  previous_aov = previous_revenue / previous_orders
  aov_change = ((current_aov - previous_aov) / previous_aov) * 100
  \<close>
  Each read can raise; the arithmetic cannot.
\<close>

record kpis =
  current_revenue :: npscalar
  previous_revenue :: npscalar
  mom_change :: npfloat
  current_orders :: npscalar
  previous_orders :: npscalar
  order_change :: npfloat
  current_aov :: npfloat
  previous_aov :: npfloat
  aov_change :: npfloat

definition kpi_calculations :: "dataframe \<Rightarrow> py_exception + kpis" where
  "kpi_calculations df =
     (case iloc (cells (Revenue df)) (- 1) of Inl e \<Rightarrow> Inl e | Inr cr \<Rightarrow>
     (case iloc (cells (Revenue df)) (- 2) of Inl e \<Rightarrow> Inl e | Inr pr \<Rightarrow>
     (case iloc (cells (Orders df)) (- 1) of Inl e \<Rightarrow> Inl e | Inr co \<Rightarrow>
     (case iloc (cells (Orders df)) (- 2) of Inl e \<Rightarrow> Inl e | Inr po \<Rightarrow>
      (let ca = np_truediv cr co;
           pa = np_truediv pr po
       in Inr \<lparr>current_revenue = cr,
               previous_revenue = pr,
               mom_change = np_mul (np_truediv (np_minus cr pr) pr) (Fin 100),
               current_orders = co,
               previous_orders = po,
               order_change = np_mul (np_truediv (np_minus co po) po) (Fin 100),
               current_aov = ca,
               previous_aov = pa,
               aov_change = np_mul (np_div (np_sub ca pa) pa) (Fin 100)\<rparr>)))))"

section \<open>Risk engine, diagnosis engine, risk score\<close>

text \<open>The three level markers are the UTF-8 bytes of the red, yellow and green circle.\<close>

definition red_circle :: string where
  "red_circle = [CHR 0xF0, CHR 0x9F, CHR 0x94, CHR 0xB4]"

definition yellow_circle :: string where
  "yellow_circle = [CHR 0xF0, CHR 0x9F, CHR 0x9F, CHR 0xA1]"

definition green_circle :: string where
  "green_circle = [CHR 0xF0, CHR 0x9F, CHR 0x9F, CHR 0xA2]"

text \<open>
  Lines 96-104, with the circle written out:
  \<^verbatim>\<open>
  if mom_change <= -10:
      risk_level = "(red circle) High Risk"
      risk_message = "Significant revenue decline detected. Immediate investigation required."
  elif -10 < mom_change < 0:
      risk_level = "(yellow circle) Medium Risk"
      risk_message = "Moderate revenue decline. Monitor closely."
  else:
      risk_level = "(green circle) Healthy"
      risk_message = "Revenue performance is stable or growing."
  \<close>
  The pair returned is \<^verbatim>\<open>(risk_level, risk_message)\<close>.
\<close>

definition risk_engine :: "npfloat \<Rightarrow> string \<times> string" where
  "risk_engine mom =
     (if np_le mom (Fin (- 10)) then
        (red_circle @ '' High Risk'',
         ''Significant revenue decline detected. Immediate investigation required.'')
      else if np_lt (Fin (- 10)) mom \<and> np_lt mom (Fin 0) then
        (yellow_circle @ '' Medium Risk'',
         ''Moderate revenue decline. Monitor closely.'')
      else
        (green_circle @ '' Healthy'',
         ''Revenue performance is stable or growing.''))"

text \<open>
  Lines 109-114:
  \<^verbatim>\<open>
  if mom_change < 0 and order_change < 0:
      diagnosis = "Revenue and order volume declined together. Possible demand contraction."
  elif mom_change < 0 and order_change >= 0:
      diagnosis = "Revenue declined while order volume remained stable. Potential pricing issue."
  else:
      diagnosis = "No major structural performance issue detected."
  \<close>
\<close>

definition diagnosis_engine :: "npfloat \<Rightarrow> npfloat \<Rightarrow> string" where
  "diagnosis_engine mom ord =
     (if np_lt mom (Fin 0) \<and> np_lt ord (Fin 0) then
        ''Revenue and order volume declined together. Possible demand contraction.''
      else if np_lt mom (Fin 0) \<and> np_ge ord (Fin 0) then
        ''Revenue declined while order volume remained stable. Potential pricing issue.''
      else
        ''No major structural performance issue detected.'')"

text \<open>
  Line 119:
  \<^verbatim>\<open>
  risk_score = min(round(abs(mom_change)*2 + abs(order_change)*1.5 + abs(aov_change)*1.2), 100)
  \<close>
  The weighted sum is a binary64 number: each product and each sum is rounded, and the
  literals 1.5 and 1.2 are the binary64 numbers nearest to them.
\<close>

definition weighted_sum :: "npfloat \<Rightarrow> npfloat \<Rightarrow> npfloat \<Rightarrow> npfloat" where
  "weighted_sum mom ord aov =
     np_add (np_add (np_mul (np_abs mom) (Fin 2)) (np_mul (np_abs ord) (f64 1.5)))
            (np_mul (np_abs aov) (f64 1.2))"

definition risk_scorer :: "npfloat \<Rightarrow> npfloat \<Rightarrow> npfloat \<Rightarrow> py_exception + int" where
  "risk_scorer mom ord aov =
     (case np_round (weighted_sum mom ord aov) of
        Inl e \<Rightarrow> Inl e
      | Inr n \<Rightarrow> Inr (min n 100))"

section \<open>Revenue forecast\<close>

text \<open>
  Lines 124-129:
  \<^verbatim>\<open>
  x = np.arange(len(df))
  y = df["Revenue"].values
  coefficients = np.polyfit(x, y, 1)
  trend_line = np.poly1d(coefficients)
  next_month_index = len(df)
  forecast_revenue = round(trend_line(next_month_index), 0)
  \<close>
  \<^verbatim>\<open>np.polyfit\<close> is numpy's least-squares solver. What it returns in binary64 depends on
  the linear-algebra library behind numpy and is not fixed by the script, so the solver is
  a parameter \<open>polyfit\<close> of the model: given the indices and the revenues as binary64
  numbers it raises or returns the two coefficients, slope first. \<^verbatim>\<open>np.poly1d\<close> evaluates the
  line by Horner's rule, starting from an integer zero.
\<close>

type_synonym solver = "real list \<Rightarrow> npfloat list \<Rightarrow> py_exception + npfloat \<times> npfloat"

definition arange :: "nat \<Rightarrow> real list" where
  "arange n = map real [0..<n]"

definition poly1d :: "npfloat \<times> npfloat \<Rightarrow> nat \<Rightarrow> npfloat" where
  "poly1d c t = np_add (np_mul (np_add (Fin 0) (fst c)) (f64 (real t))) (snd c)"

definition revenue_forecast :: "solver \<Rightarrow> dataframe \<Rightarrow> py_exception + npfloat" where
  "revenue_forecast polyfit df =
     (let x = arange (len_df df);
          y = map to_f64 (cells (Revenue df))
      in (case polyfit x y of
            Inl e \<Rightarrow> Inl e
          | Inr coefficients \<Rightarrow>
             (let next_month_index = len_df df
              in Inr (round0 (poly1d coefficients next_month_index)))))"

section \<open>Commentary\<close>

text \<open>
  Lines 134-142:
  \<^verbatim>\<open>
  def ai_diagnosis_layer(revenue_change, order_change, risk_level):
      if risk_level.startswith("(red circle)"):
          return "Revenue contraction detected alongside order decline. Immediate intervention recommended."
      elif risk_level.startswith("(yellow circle)"):
          return "Early signs of revenue deceleration observed. Close monitoring advised."
      else:
          return "Revenue trajectory remains stable with positive order dynamics. No material performance anomaly detected."

  ai_commentary = ai_diagnosis_layer(mom_change, order_change, risk_level)
  \<close>
\<close>

definition startswith :: "string \<Rightarrow> string \<Rightarrow> bool" where
  "startswith s p = (take (length p) s = p)"

definition ai_diagnosis_layer :: "npfloat \<Rightarrow> npfloat \<Rightarrow> string \<Rightarrow> string" where
  "ai_diagnosis_layer revenue_change order_chg risk_lvl =
     (if startswith risk_lvl red_circle then
        ''Revenue contraction detected alongside order decline. Immediate intervention recommended.''
      else if startswith risk_lvl yellow_circle then
        ''Early signs of revenue deceleration observed. Close monitoring advised.''
      else
        ''Revenue trajectory remains stable with positive order dynamics. No material performance anomaly detected.'')"

section \<open>The script\<close>

text \<open>
  The script from the upload to the values it displays. Without a file it shows a
  placeholder and stops; with a file it checks the columns, then runs the sections above in
  the order of the file. The first failure ends the run and nothing is displayed.
\<close>

record dashboard =
  metrics :: kpis
  risk_level :: string
  risk_message :: string
  diagnosis :: string
  risk_score :: int
  forecast_revenue :: npfloat
  ai_commentary :: string

definition app :: "solver \<Rightarrow> dataframe option \<Rightarrow> halt + dashboard" where
  "app polyfit uploaded_file =
     (case uploaded_file of
        None \<Rightarrow> Inl NoUpload
      | Some df \<Rightarrow>
         (if \<not> issubset required_columns (columns df) then Inl MissingColumns
          else
           (case kpi_calculations df of Inl e \<Rightarrow> Inl (Raised e) | Inr k \<Rightarrow>
           (let level = fst (risk_engine (mom_change k));
                message = snd (risk_engine (mom_change k));
                diag = diagnosis_engine (mom_change k) (order_change k)
            in
           (case risk_scorer (mom_change k) (order_change k) (aov_change k) of
              Inl e \<Rightarrow> Inl (Raised e) | Inr score \<Rightarrow>
           (case revenue_forecast polyfit df of Inl e \<Rightarrow> Inl (Raised e) | Inr forecast \<Rightarrow>
              Inr \<lparr>metrics = k,
                   risk_level = level,
                   risk_message = message,
                   diagnosis = diag,
                   risk_score = score,
                   forecast_revenue = forecast,
                   ai_commentary =
                     ai_diagnosis_layer (mom_change k) (order_change k) level\<rparr>))))))"

section \<open>Rounding to an integer and to binary64\<close>

lemma py_round_near: "\<bar>of_int (py_round x) - x\<bar> \<le> 1 / 2"
proof -
  have "of_int \<lfloor>x\<rfloor> \<le> x" "x < of_int \<lfloor>x\<rfloor> + 1" by linarith+
  then show ?thesis
    by (auto simp: py_round_def Let_def)
qed

lemma py_round_tie_even:
  assumes "\<bar>of_int (py_round x) - x\<bar> = 1 / 2"
  shows "even (py_round x)"
proof -
  have fl: "of_int \<lfloor>x\<rfloor> \<le> x" "x < of_int \<lfloor>x\<rfloor> + 1" by linarith+
  show ?thesis
  proof (cases "x - of_int \<lfloor>x\<rfloor> = 1 / 2")
    case True
    then show ?thesis by (simp add: py_round_def Let_def)
  next
    case False
    then show ?thesis
      using assms fl by (auto simp: py_round_def Let_def split: if_splits)
  qed
qed

lemma py_round_of_int: "py_round (of_int n) = n"
  by (simp add: py_round_def)

lemma py_round_mono:
  assumes "x \<le> y" shows "py_round x \<le> py_round y"
proof (rule ccontr)
  assume "\<not> py_round x \<le> py_round y"
  then have gt: "py_round y + 1 \<le> py_round x" by simp
  then have "(of_int (py_round y) :: real) + 1 \<le> of_int (py_round x)"
    by (metis of_int_1 of_int_add of_int_le_iff)
  moreover have "\<bar>of_int (py_round x) - x\<bar> \<le> 1 / 2" "\<bar>of_int (py_round y) - y\<bar> \<le> 1 / 2"
    by (rule py_round_near)+
  ultimately have "x = y" using assms by linarith
  with gt show False by simp
qed

lemma py_round_nonneg: "0 \<le> x \<Longrightarrow> 0 \<le> py_round x"
  using py_round_mono [of 0 x] py_round_of_int [of 0] by simp

lemma py_round_unique:
  assumes "\<bar>of_int n - x\<bar> \<le> 1 / 2" and "\<bar>of_int n - x\<bar> = 1 / 2 \<longrightarrow> even n"
  shows "py_round x = n"
proof -
  have near: "\<bar>of_int (py_round x) - x\<bar> \<le> 1 / 2" by (rule py_round_near)
  have "\<bar>(of_int (py_round x) :: real) - of_int n\<bar> \<le> 1"
    using near assms(1) by linarith
  then have "\<bar>py_round x - n\<bar> \<le> 1"
    by (metis of_int_1 of_int_abs of_int_diff of_int_le_iff)
  then consider "py_round x = n" | "py_round x = n + 1" | "py_round x = n - 1" by linarith
  then show ?thesis
  proof cases
    case 1 then show ?thesis .
  next
    case 2
    then have "\<bar>of_int (py_round x) - x\<bar> = 1 / 2" "\<bar>of_int n - x\<bar> = 1 / 2"
      using near assms(1) by auto
    then have "even (py_round x)" "even n"
      using py_round_tie_even assms(2) by auto
    with 2 show ?thesis by simp
  next
    case 3
    then have "\<bar>of_int (py_round x) - x\<bar> = 1 / 2" "\<bar>of_int n - x\<bar> = 1 / 2"
      using near assms(1) by auto
    then have "even (py_round x)" "even n"
      using py_round_tie_even assms(2) by auto
    with 3 show ?thesis by simp
  qed
qed

lemma bitlen_bounds: "0 < n \<Longrightarrow> 2 ^ (bitlen n - 1) \<le> n \<and> n < 2 ^ bitlen n"
proof (induction n rule: bitlen.induct)
  case (1 n)
  show ?case
  proof (cases "n div 2 = 0")
    case True
    with "1.prems" have "n = 1" by (simp add: div_eq_0_iff)
    then show ?thesis by (simp add: bitlen.simps)
  next
    case False
    then have ih: "2 ^ (bitlen (n div 2) - 1) \<le> n div 2" "n div 2 < 2 ^ bitlen (n div 2)"
      using "1.IH" "1.prems" by auto
    have pos: "0 < bitlen (n div 2)"
      using False by (subst bitlen.simps) simp
    have b: "bitlen n = Suc (bitlen (n div 2))"
      using "1.prems" by (subst bitlen.simps) simp
    have "2 ^ (bitlen n - 1) = 2 * 2 ^ (bitlen (n div 2) - 1)"
      using pos b by (cases "bitlen (n div 2)") simp_all
    also have "\<dots> \<le> 2 * (n div 2)" using ih(1) by simp
    also have "\<dots> \<le> n" by simp
    finally have lo: "2 ^ (bitlen n - 1) \<le> n" .
    have "n < 2 * (n div 2) + 2" by linarith
    also have "\<dots> \<le> 2 * 2 ^ bitlen (n div 2)" using ih(2) by simp
    finally have "n < 2 ^ bitlen n" by (simp add: b)
    with lo show ?thesis by simp
  qed
qed

lemma bitlen_pos: "0 < n \<Longrightarrow> 0 < bitlen n"
  by (subst bitlen.simps) simp


lemma ilog2_bounds:
  assumes "0 < m"
  shows "2 powi ilog2 m \<le> m" and "m < 2 powi (ilog2 m + 1)"
proof -
  have "2 powi ilog2 m \<le> m \<and> m < 2 powi (ilog2 m + 1)"
  proof (cases "1 \<le> m")
    case True
    define n where "n = nat \<lfloor>m\<rfloor>"
    define k where "k = bitlen n"
    have n: "0 < n" "real n \<le> m" "m < real n + 1"
      using True by (auto simp: n_def)
    have k: "0 < k" "2 ^ (k - 1) \<le> n" "n < 2 ^ k"
      using bitlen_bounds [OF n(1)] bitlen_pos [OF n(1)] by (simp_all add: k_def)
    have e: "ilog2 m = int k - 1"
      using True by (simp add: ilog2_def n_def k_def)
    have "int k - 1 = int (k - 1)" using k(1) by simp
    then have lo: "(2::real) powi (int k - 1) = 2 ^ (k - 1)"
      by (simp only: power_int_of_nat)
    have hi: "(2::real) powi (int k - 1 + 1) = 2 ^ k" by simp
    have "(2::real) ^ (k - 1) \<le> real n"
      using k(2) of_nat_mono [of "2 ^ (k - 1)" n, where ?'a = real] by simp
    moreover have "real n + 1 \<le> 2 ^ k"
      using k(3) of_nat_mono [of "Suc n" "2 ^ k", where ?'a = real] by simp
    ultimately show ?thesis
      unfolding e lo hi using n by linarith
  next
    case False
    define c where "c = \<lceil>1 / m\<rceil>"
    define n where "n = nat (c - 1)"
    define k where "k = bitlen n"
    have inv: "1 < 1 / m" using False assms by simp
    have c: "1 / m \<le> of_int c" "of_int c < 1 / m + 1"
      by (simp_all add: c_def) linarith+
    have c2: "2 \<le> c" using inv c(1) by linarith
    then have n: "0 < n" "real n = of_int c - 1"
      by (simp_all add: n_def)
    have k: "0 < k" "2 ^ (k - 1) \<le> n" "n < 2 ^ k"
      using bitlen_bounds [OF n(1)] bitlen_pos [OF n(1)] by (simp_all add: k_def)
    have e: "ilog2 m = - int k"
      using False by (simp add: ilog2_def n_def k_def c_def)
    have lo: "(2::real) powi (- int k) = 1 / 2 ^ k"
      by (simp add: power_int_minus field_simps)
    have "- int k + 1 = - int (k - 1)" using k(1) by simp
    then have hi: "(2::real) powi (- int k + 1) = 1 / 2 ^ (k - 1)"
      by (simp only: power_int_minus power_int_of_nat) (simp add: field_simps)
    have a: "(2::real) ^ (k - 1) \<le> real n"
      using k(2) of_nat_mono [of "2 ^ (k - 1)" n, where ?'a = real] by simp
    have b: "real n + 1 \<le> 2 ^ k"
      using k(3) of_nat_mono [of "Suc n" "2 ^ k", where ?'a = real] by simp
    have "1 / m \<le> 2 ^ k" using b c(1) n(2) by linarith
    then have "1 \<le> 2 ^ k * m" using assms by (simp add: field_simps)
    then have l: "1 / 2 ^ k \<le> m" by (simp add: field_simps)
    have "2 ^ (k - 1) < 1 / m" using a c(2) n(2) by linarith
    then have "2 ^ (k - 1) * m < 1" using assms by (simp add: field_simps)
    then have h: "m < 1 / 2 ^ (k - 1)" by (simp add: field_simps)
    show ?thesis unfolding e lo hi using l h by simp
  qed
  then show "2 powi ilog2 m \<le> m" and "m < 2 powi (ilog2 m + 1)" by simp_all
qed

lemma ilog2_mono:
  assumes "0 < m" "m \<le> m'"
  shows "ilog2 m \<le> ilog2 m'"
proof (rule ccontr)
  assume "\<not> ilog2 m \<le> ilog2 m'"
  then have "ilog2 m' + 1 \<le> ilog2 m" by simp
  then have "(2::real) powi (ilog2 m' + 1) \<le> 2 powi ilog2 m"
    by (intro power_int_increasing) simp_all
  moreover have "2 powi ilog2 m \<le> m" using assms(1) by (rule ilog2_bounds)
  moreover have "m' < 2 powi (ilog2 m' + 1)" using assms by (intro ilog2_bounds) simp
  ultimately show False using assms(2) by linarith
qed


lemma quantum_pos: "0 < quantum m"
  by (simp add: quantum_def)

lemma quantum_scale: "quantum m * 2 ^ 52 = 2 powi max (ilog2 m) (- 1022)"
proof -
  have "(2::real) powi (max (ilog2 m) (- 1022) - 52) * 2 powi 52 = 2 powi max (ilog2 m) (- 1022)"
    by (subst power_int_add [symmetric]) simp_all
  then show ?thesis by (simp add: quantum_def)
qed

lemma rounded_magnitude_nonneg: "0 \<le> m \<Longrightarrow> 0 \<le> rounded_magnitude m"
  using quantum_pos [of m] py_round_nonneg [of "m / quantum m"]
  by (simp add: rounded_magnitude_def)

lemma rounded_magnitude_lower:
  assumes "0 < m" "- 1022 \<le> ilog2 m"
  shows "2 powi ilog2 m \<le> rounded_magnitude m"
proof -
  have q: "quantum m * 2 ^ 52 = 2 powi ilog2 m"
    using quantum_scale [of m] assms(2) by (simp add: max_def)
  have "quantum m * 2 ^ 52 \<le> m"
    unfolding q using assms(1) by (rule ilog2_bounds)
  then have "2 ^ 52 \<le> m / quantum m"
    using quantum_pos [of m] by (simp add: field_simps)
  then have "py_round (of_int (2 ^ 52)) \<le> py_round (m / quantum m)"
    by (intro py_round_mono) simp
  then have "(2::int) ^ 52 \<le> py_round (m / quantum m)"
    by (simp only: py_round_of_int)
  then have "(of_int (2 ^ 52) :: real) \<le> of_int (py_round (m / quantum m))"
    by (simp only: of_int_le_iff)
  then have "2 ^ 52 * quantum m \<le> of_int (py_round (m / quantum m)) * quantum m"
    using quantum_pos [of m] by simp
  then show ?thesis
    using q by (simp add: rounded_magnitude_def mult.commute)
qed

lemma rounded_magnitude_upper:
  assumes "0 < m"
  shows "rounded_magnitude m \<le> 2 powi (max (ilog2 m) (- 1022) + 1)"
proof -
  have "m < 2 powi (ilog2 m + 1)" using assms by (rule ilog2_bounds)
  also have "\<dots> \<le> 2 powi (max (ilog2 m) (- 1022) + 1)"
    by (intro power_int_increasing) simp_all
  also have "\<dots> = 2 powi max (ilog2 m) (- 1022) * 2"
    by (simp add: power_int_add)
  also have "\<dots> = quantum m * 2 ^ 53"
    using quantum_scale [of m] by simp
  finally have "m / quantum m \<le> 2 ^ 53"
    using quantum_pos [of m] by (simp add: field_simps)
  then have "py_round (m / quantum m) \<le> py_round (of_int (2 ^ 53))"
    by (intro py_round_mono) simp
  then have "py_round (m / quantum m) \<le> 2 ^ 53"
    by (simp only: py_round_of_int)
  then have "(of_int (py_round (m / quantum m)) :: real) \<le> of_int (2 ^ 53)"
    by (simp only: of_int_le_iff)
  then have "of_int (py_round (m / quantum m)) * quantum m \<le> 2 ^ 53 * quantum m"
    using quantum_pos [of m] by simp
  also have "\<dots> = 2 powi max (ilog2 m) (- 1022) * 2"
    using quantum_scale [of m] by simp
  also have "\<dots> = 2 powi (max (ilog2 m) (- 1022) + 1)"
    by (simp add: power_int_add)
  finally show ?thesis by (simp add: rounded_magnitude_def)
qed

lemma rounded_magnitude_mono:
  assumes "0 < m" "m \<le> m'"
  shows "rounded_magnitude m \<le> rounded_magnitude m'"
proof -
  have m': "0 < m'" using assms by simp
  have e: "ilog2 m \<le> ilog2 m'" using assms by (rule ilog2_mono)
  show ?thesis
  proof (cases "max (ilog2 m) (- 1022) = max (ilog2 m') (- 1022)")
    case True
    then have q: "quantum m = quantum m'" by (simp add: quantum_def)
    have "m / quantum m' \<le> m' / quantum m'"
      using assms(2) quantum_pos [of m'] by (simp add: divide_right_mono)
    then have "py_round (m / quantum m') \<le> py_round (m' / quantum m')"
      by (rule py_round_mono)
    then have "(of_int (py_round (m / quantum m')) :: real) \<le> of_int (py_round (m' / quantum m'))"
      by (simp only: of_int_le_iff)
    then show ?thesis
      using quantum_pos [of m'] by (simp add: rounded_magnitude_def q)
  next
    case False
    with e have lt: "max (ilog2 m) (- 1022) + 1 \<le> ilog2 m'" and n: "- 1022 \<le> ilog2 m'"
      by (auto simp: max_def split: if_splits)
    have "rounded_magnitude m \<le> 2 powi (max (ilog2 m) (- 1022) + 1)"
      using assms(1) by (rule rounded_magnitude_upper)
    also have "\<dots> \<le> 2 powi ilog2 m'"
      using lt by (intro power_int_increasing) simp_all
    also have "\<dots> \<le> rounded_magnitude m'"
      using m' n by (rule rounded_magnitude_lower)
    finally show ?thesis .
  qed
qed

text \<open>The rounding of a magnitude to a positive binary64 number or to infinity.\<close>

lemma round_binary64_positive_cases:
  assumes "0 \<le> m"
  shows "round_binary64 False m = PInf \<or> (\<exists>v\<ge>0. round_binary64 False m = Fin v)"
  using rounded_magnitude_nonneg [OF assms]
  by (auto simp: round_binary64_def zero_of_def inf_of_def)

lemma round_binary64_mono:
  assumes "0 \<le> m" "m \<le> m'"
  shows "np_le (round_binary64 False m) (round_binary64 False m')"
proof (cases "m = 0")
  case True
  then show ?thesis
    using round_binary64_positive_cases [of m'] assms
    by (auto simp: round_binary64_def zero_of_def)
next
  case False
  then have pos: "0 < m" "0 < m'" using assms by auto
  have mono: "rounded_magnitude m \<le> rounded_magnitude m'"
    using pos(1) assms(2) by (rule rounded_magnitude_mono)
  have nn: "0 \<le> rounded_magnitude m" "0 \<le> rounded_magnitude m'"
    using pos by (simp_all add: rounded_magnitude_nonneg)
  show ?thesis
  proof (cases "2 ^ 1024 \<le> m' \<or> 2 ^ 1024 \<le> rounded_magnitude m'")
    case True
    then have "round_binary64 False m' = PInf"
      using pos by (auto simp: round_binary64_def inf_of_def)
    moreover have "round_binary64 False m \<noteq> NaN" "round_binary64 False m \<noteq> NegZero"
      using round_binary64_positive_cases [OF assms(1)] by auto
    ultimately show ?thesis
      by (cases "round_binary64 False m") simp_all
  next
    case False
    then have "\<not> 2 ^ 1024 \<le> m" "\<not> 2 ^ 1024 \<le> rounded_magnitude m"
      using assms(2) mono by auto
    with False pos mono nn show ?thesis
      by (auto simp: round_binary64_def zero_of_def)
  qed
qed

lemma rounded_magnitude_near: "\<bar>rounded_magnitude m - m\<bar> \<le> quantum m / 2"
proof -
  have q: "0 < quantum m" by (rule quantum_pos)
  have "\<bar>of_int (py_round (m / quantum m)) - m / quantum m\<bar> \<le> 1 / 2"
    by (rule py_round_near)
  then have "\<bar>of_int (py_round (m / quantum m)) - m / quantum m\<bar> * quantum m \<le> 1 / 2 * quantum m"
    using q by (intro mult_right_mono) simp_all
  moreover have "(of_int (py_round (m / quantum m)) - m / quantum m) * quantum m
      = rounded_magnitude m - m"
    using q by (simp add: rounded_magnitude_def left_diff_distrib)
  ultimately show ?thesis
    using q abs_mult_pos [of "quantum m" "of_int (py_round (m / quantum m)) - m / quantum m"]
    by simp
qed

lemma f64_of_int:
  fixes k :: int
  assumes "k \<noteq> 0" "\<bar>k\<bar> \<le> 2 ^ 64"
  shows "\<exists>v. f64 (of_int k) = Fin v \<and> v \<noteq> 0 \<and> (v < 0) = (k < 0)"
proof -
  define m :: real where "m = \<bar>of_int k\<bar>"
  have "1 \<le> \<bar>k\<bar>" using assms(1) by simp
  then have "(of_int 1 :: real) \<le> of_int \<bar>k\<bar>" by (simp only: of_int_le_iff)
  then have m1: "1 \<le> m" by (simp add: m_def)
  have "(of_int \<bar>k\<bar> :: real) \<le> of_int (2 ^ 64)" using assms(2) by (simp only: of_int_le_iff)
  then have m64: "m \<le> 2 ^ 64" by (simp add: m_def)
  have pos: "0 < m" using m1 by simp
  have e0: "0 \<le> ilog2 m"
  proof (rule ccontr)
    assume "\<not> 0 \<le> ilog2 m"
    then have "(2::real) powi (ilog2 m + 1) \<le> 2 powi 0"
      by (intro power_int_increasing) simp_all
    moreover have "m < 2 powi (ilog2 m + 1)" using pos by (rule ilog2_bounds)
    ultimately show False using m1 by simp
  qed
  have e64: "ilog2 m \<le> 64"
  proof (rule ccontr)
    assume "\<not> ilog2 m \<le> 64"
    then have "(2::real) powi 65 \<le> 2 powi ilog2 m"
      by (intro power_int_increasing) simp_all
    moreover have "2 powi ilog2 m \<le> m" using pos by (rule ilog2_bounds)
    ultimately show False using m64 by simp
  qed
  have "(2::real) powi 0 \<le> 2 powi ilog2 m"
    using e0 by (intro power_int_increasing) simp_all
  also have "\<dots> \<le> rounded_magnitude m"
    using pos e0 by (intro rounded_magnitude_lower) simp_all
  finally have lo: "1 \<le> rounded_magnitude m" by simp
  have "rounded_magnitude m \<le> 2 powi (max (ilog2 m) (- 1022) + 1)"
    using pos by (rule rounded_magnitude_upper)
  also have "\<dots> \<le> 2 powi 65"
    using e0 e64 by (intro power_int_increasing) simp_all
  finally have hi: "rounded_magnitude m \<le> 2 ^ 65" by simp
  have "(2::real) ^ 65 < 2 ^ 1024" "(2::real) ^ 64 < 2 ^ 1024" by simp_all
  with hi m64 have fin: "\<not> 2 ^ 1024 \<le> rounded_magnitude m" "\<not> 2 ^ 1024 \<le> m"
    by linarith+
  have neg: "((of_int k :: real) < 0) = (k < 0)" by simp
  show ?thesis
    using lo fin pos unfolding f64_def m_def [symmetric] neg
    by (auto simp: round_binary64_def)
qed

lemma f64_zero: "f64 0 = Fin 0"
  by (simp add: f64_def round_binary64_def zero_of_def)

lemma to_f64_int_cases:
  "to_f64 (I64 w) = Fin 0 \<and> w = 0
   \<or> (\<exists>v. to_f64 (I64 w) = Fin v \<and> v \<noteq> 0 \<and> (v < 0) = (sint w < 0) \<and> w \<noteq> 0)"
proof (cases "w = 0")
  case True
  then show ?thesis by (simp add: f64_zero)
next
  case False
  then have "sint w \<noteq> 0" by (simp add: signed_eq_0_iff)
  moreover have "\<bar>sint w\<bar> \<le> 2 ^ 64"
    using sint_ge [of w] sint_lt [of w] by simp
  ultimately show ?thesis
    using f64_of_int [of "sint w"] False by auto
qed

lemma to_f64_uint_cases:
  "to_f64 (U64 w) = Fin 0 \<and> w = 0
   \<or> (\<exists>v. to_f64 (U64 w) = Fin v \<and> 0 < v \<and> w \<noteq> 0)"
proof (cases "w = 0")
  case True
  then show ?thesis by (simp add: f64_zero)
next
  case False
  then have "uint w \<noteq> 0" by (simp add: uint_0_iff)
  moreover have "0 \<le> uint w" "uint w < 2 ^ 64"
    using uint_bounded [of w] by simp_all
  ultimately show ?thesis
    using f64_of_int [of "uint w"] False by auto
qed

section \<open>Positional reads and the KPI calculations\<close>

lemma iloc_last: "iloc (xs @ [p, c]) (- 1) = Inr c"
proof -
  have len: "length (xs @ [p, c]) = length xs + 2" by simp
  have "nat (int (length xs + 2) + - 1) = Suc (length xs)" by simp
  then show ?thesis
    unfolding iloc_def len by (simp add: nth_append)
qed

lemma iloc_prev: "iloc (xs @ [p, c]) (- 2) = Inr p"
proof -
  have len: "length (xs @ [p, c]) = length xs + 2" by simp
  have "nat (int (length xs + 2) + - 2) = length xs" by simp
  then show ?thesis
    unfolding iloc_def len by (simp add: nth_append)
qed

lemma iloc_short: "length xs < 2 \<Longrightarrow> iloc xs (- 2) = Inl IndexError"
  by (simp add: iloc_def)

lemma iloc_error: "iloc xs i = Inl e \<Longrightarrow> e = IndexError"
  by (simp add: iloc_def split: if_splits)

lemma kpi_calculations_last_two:
  assumes "cells (Revenue df) = ps @ [p, c]" and "cells (Orders df) = qs @ [po, co]"
  shows "kpi_calculations df =
     Inr \<lparr>current_revenue = c,
          previous_revenue = p,
          mom_change = np_mul (np_truediv (np_minus c p) p) (Fin 100),
          current_orders = co,
          previous_orders = po,
          order_change = np_mul (np_truediv (np_minus co po) po) (Fin 100),
          current_aov = np_truediv c co,
          previous_aov = np_truediv p po,
          aov_change =
            np_mul (np_div (np_sub (np_truediv c co) (np_truediv p po)) (np_truediv p po))
              (Fin 100)\<rparr>"
  unfolding kpi_calculations_def assms Let_def
  by (simp add: iloc_last iloc_prev)

lemma cells_dtype:
  assumes "x \<in> set (cells col)" "y \<in> set (cells col)"
  shows "dtype_of x = dtype_of y"
  using assms by (cases col) auto

section \<open>Evaluation at concrete inputs\<close>

lemmas float_eval = f64_def round_binary64_def rounded_magnitude_def quantum_def ilog2_def
  bitlen.simps py_round_def zero_of_def inf_of_def np_add_def np_sub_def np_mul_def
  np_div_def np_ge_def np_truediv_def weighted_sum_def Let_def

lemmas app_eval = app_def issubset_def required_columns_def kpi_calculations_def iloc_def
  risk_engine_def diagnosis_engine_def risk_scorer_def revenue_forecast_def len_df_def
  arange_def poly1d_def ai_diagnosis_layer_def startswith_def red_circle_def
  yellow_circle_def green_circle_def upt_rec

section \<open>A previous value of zero\<close>

text \<open>Dividing by a zero, and subtracting a zero first.\<close>

lemma zero_division:
  assumes "is_zero prev"
  shows "np_mul (np_div cur prev) (Fin 100) =
    (if cur = NaN \<or> is_zero cur then NaN else inf_of (sign_bit cur \<noteq> sign_bit prev))"
  using assms
  by (cases cur; cases prev) (auto simp: np_div_def np_mul_def inf_of_def)

lemma np_sub_zero:
  assumes "is_zero z"
  shows "(np_sub a z = NaN \<or> is_zero (np_sub a z)) = (a = NaN \<or> is_zero a)"
    and "\<not> (a = NaN \<or> is_zero a) \<Longrightarrow> np_sub a z = a"
  using assms
  by (cases a; cases z; auto simp: np_sub_def np_add_def zero_of_def)+

lemma np_minus_zero:
  assumes "dtype_of c = dtype_of p" "is_zero (to_f64 p)"
  shows "(to_f64 (np_minus c p) = NaN \<or> is_zero (to_f64 (np_minus c p)))
           = (to_f64 c = NaN \<or> is_zero (to_f64 c))"
    and "\<not> (to_f64 c = NaN \<or> is_zero (to_f64 c)) \<Longrightarrow> to_f64 (np_minus c p) = to_f64 c"
proof -
  have "((to_f64 (np_minus c p) = NaN \<or> is_zero (to_f64 (np_minus c p)))
           = (to_f64 c = NaN \<or> is_zero (to_f64 c)))
      \<and> (\<not> (to_f64 c = NaN \<or> is_zero (to_f64 c)) \<longrightarrow> to_f64 (np_minus c p) = to_f64 c)"
  proof (cases p)
    case (I64 w)
    then obtain u where c: "c = I64 u" using assms(1) by (cases c) simp_all
    have "w = 0" using assms(2) to_f64_int_cases [of w] I64 by auto
    then show ?thesis by (simp add: I64 c)
  next
    case (U64 w)
    then obtain u where c: "c = U64 u" using assms(1) by (cases c) simp_all
    have "w = 0" using assms(2) to_f64_uint_cases [of w] U64 by auto
    then show ?thesis by (simp add: U64 c)
  next
    case (F64 z)
    then obtain a where c: "c = F64 a" using assms(1) by (cases c) simp_all
    show ?thesis
      using np_sub_zero [of z a] assms(2) by (simp add: F64 c)
  qed
  then show "(to_f64 (np_minus c p) = NaN \<or> is_zero (to_f64 (np_minus c p)))
           = (to_f64 c = NaN \<or> is_zero (to_f64 c))"
    and "\<not> (to_f64 c = NaN \<or> is_zero (to_f64 c)) \<Longrightarrow> to_f64 (np_minus c p) = to_f64 c"
    by simp_all
qed

lemma pct_change_zero_previous:
  assumes "dtype_of c = dtype_of p" "is_zero (to_f64 p)"
  shows "np_mul (np_truediv (np_minus c p) p) (Fin 100) =
    (if to_f64 c = NaN \<or> is_zero (to_f64 c) then NaN
     else inf_of (sign_bit (to_f64 c) \<noteq> sign_bit (to_f64 p)))"
  unfolding np_truediv_def zero_division [OF assms(2)]
  using np_minus_zero [OF assms] by auto

lemma aov_change_zero_previous:
  assumes "is_zero pa"
  shows "np_mul (np_div (np_sub ca pa) pa) (Fin 100) =
    (if ca = NaN \<or> is_zero ca then NaN else inf_of (sign_bit ca \<noteq> sign_bit pa))"
  unfolding zero_division [OF assms]
  using np_sub_zero [OF assms, of ca] by auto

text \<open>
  Claim C1 says that a previous revenue, previous orders or previous AOV of exactly 0 makes
  the metric computation raise a division-by-zero error (or apply a documented sentinel),
  and that it never silently returns Infinity. The script has no such guard. With previous
  orders 0 the KPI calculations return normally, and the order change they return is
  Infinity.
\<close>

theorem kpi_zero_previous_orders_infinity:
  "kpi_calculations
     \<lparr>columns = [''Month'', ''Revenue'', ''Orders''], Month = [''Jan'', ''Feb''],
      Revenue = Int64 [1000, 900], Orders = Int64 [0, 50]\<rparr> =
   Inr \<lparr>current_revenue = I64 900, previous_revenue = I64 1000, mom_change = Fin (- 10),
        current_orders = I64 50, previous_orders = I64 0, order_change = PInf,
        current_aov = Fin 18, previous_aov = PInf, aov_change = NaN\<rparr>"
  by (simp add: app_eval float_eval)

text \<open>
  Claim C1, as amended. For every data frame with two or more rows the KPI calculations
  raise nothing when a previous value is exactly 0 (a zero of either sign). The three
  changes are computed by one and the same unguarded quotient: against a previous value of
  0 the change is NaN when the current value is 0 or NaN, and otherwise an infinity, positive
  when the current value and the zero have the same sign and negative when they differ.
  This holds for the revenue change, for the order change and for the AOV change.
\<close>

theorem kpi_zero_previous_unguarded:
  assumes "cells (Revenue df) = ps @ [p, c]" and "cells (Orders df) = qs @ [po, co]"
  shows "\<exists>k. kpi_calculations df = Inr k
     \<and> (let unguarded = (\<lambda>current previous.
               if current = NaN \<or> is_zero current then NaN
               else inf_of (sign_bit current \<noteq> sign_bit previous))
        in (is_zero (to_f64 p) \<longrightarrow> mom_change k = unguarded (to_f64 c) (to_f64 p))
         \<and> (is_zero (to_f64 po) \<longrightarrow> order_change k = unguarded (to_f64 co) (to_f64 po))
         \<and> (is_zero (previous_aov k) \<longrightarrow>
              aov_change k = unguarded (current_aov k) (previous_aov k)))"
proof -
  have r: "dtype_of c = dtype_of p"
    by (rule cells_dtype [of _ "Revenue df"]) (simp_all add: assms)
  have o: "dtype_of co = dtype_of po"
    by (rule cells_dtype [of _ "Orders df"]) (simp_all add: assms)
  show ?thesis
    unfolding kpi_calculations_last_two [OF assms] Let_def
    using pct_change_zero_previous [OF r] pct_change_zero_previous [OF o]
      aov_change_zero_previous [of "np_truediv p po" "np_truediv c co"]
    by simp
qed

theorem kpi_zero_previous_unguarded_witness:
  "map_sum id mom_change
     (kpi_calculations
        \<lparr>columns = [''Month'', ''Revenue'', ''Orders''], Month = [''Jan'', ''Feb''],
         Revenue = Float64 [Fin 0, Fin 900], Orders = Int64 [- 10, 40]\<rparr>) = Inr PInf
   \<and> map_sum id aov_change
     (kpi_calculations
        \<lparr>columns = [''Month'', ''Revenue'', ''Orders''], Month = [''Jan'', ''Feb''],
         Revenue = Float64 [Fin 0, Fin 900], Orders = Int64 [- 10, 40]\<rparr>) = Inr NInf
   \<and> map_sum id order_change
     (kpi_calculations
        \<lparr>columns = [''Month'', ''Revenue'', ''Orders''], Month = [''Mar'', ''Apr''],
         Revenue = Int64 [700, 0], Orders = Int64 [0, 0]\<rparr>) = Inr NaN"
proof -
  let ?a = "\<lparr>columns = [''Month'', ''Revenue'', ''Orders''], Month = [''Jan'', ''Feb''],
         Revenue = Float64 [Fin 0, Fin 900], Orders = Int64 [- 10, 40]\<rparr>"
  let ?b = "\<lparr>columns = [''Month'', ''Revenue'', ''Orders''], Month = [''Mar'', ''Apr''],
         Revenue = Int64 [700, 0], Orders = Int64 [0, 0]\<rparr>"
  have ra: "cells (Revenue ?a) = [] @ [F64 (Fin 0), F64 (Fin 900)]"
    and oa: "cells (Orders ?a) = [] @ [I64 (- 10), I64 40]"
    and rb: "cells (Revenue ?b) = [] @ [I64 700, I64 0]"
    and ob: "cells (Orders ?b) = [] @ [I64 0, I64 0]"
    by (simp_all add: float_eval)
  obtain k where k: "kpi_calculations ?a = Inr k" "mom_change k = PInf" "aov_change k = NInf"
    using kpi_zero_previous_unguarded [OF ra oa] kpi_calculations_last_two [OF ra oa]
    by (auto simp: float_eval)
  obtain k' where k': "kpi_calculations ?b = Inr k'" "order_change k' = NaN"
    using kpi_zero_previous_unguarded [OF rb ob] kpi_calculations_last_two [OF rb ob]
    by (auto simp: float_eval)
  from k k' show ?thesis by simp
qed

section \<open>The dashboard\<close>

text \<open>Every field of a dashboard that the script shows is the value of its engine.\<close>

lemma app_wiring:
  assumes "app polyfit up = Inr d"
  shows "risk_level d = fst (risk_engine (mom_change (metrics d)))"
    and "risk_message d = snd (risk_engine (mom_change (metrics d)))"
    and "diagnosis d = diagnosis_engine (mom_change (metrics d)) (order_change (metrics d))"
    and "risk_scorer (mom_change (metrics d)) (order_change (metrics d)) (aov_change (metrics d))
           = Inr (risk_score d)"
    and "ai_commentary d =
           ai_diagnosis_layer (mom_change (metrics d)) (order_change (metrics d)) (risk_level d)"
  using assms
  by (auto simp: app_def Let_def split: option.splits if_splits sum.splits)

lemma app_jan_feb:
  "app (\<lambda>x y. Inr (Fin (- 100), Fin 1000))
     (Some \<lparr>columns = [''Month'', ''Revenue'', ''Orders''], Month = [''Jan'', ''Feb''],
            Revenue = Int64 [1000, 900], Orders = Int64 [50, 40]\<rparr>) =
   Inr \<lparr>metrics =
          \<lparr>current_revenue = I64 900, previous_revenue = I64 1000, mom_change = Fin (- 10),
           current_orders = I64 40, previous_orders = I64 50, order_change = Fin (- 20),
           current_aov = Fin 22.5, previous_aov = Fin 20, aov_change = Fin 12.5\<rparr>,
        risk_level = red_circle @ '' High Risk'',
        risk_message =
          ''Significant revenue decline detected. Immediate investigation required.'',
        diagnosis =
          ''Revenue and order volume declined together. Possible demand contraction.'',
        risk_score = 65,
        forecast_revenue = Fin 800,
        ai_commentary =
          ''Revenue contraction detected alongside order decline. Immediate intervention recommended.''\<rparr>"
  by (simp add: app_eval float_eval)

section \<open>Risk classification\<close>

text \<open>
  Claim C3. For every real revenue change \<open>r\<close> the risk engine returns the level High Risk
  with the message "Significant revenue decline detected. Immediate investigation required."
  when \<open>r \<le> -10\<close>, Medium Risk with "Moderate revenue decline. Monitor closely." when
  \<open>-10 < r < 0\<close>, and Healthy with "Revenue performance is stable or growing." when
  \<open>0 \<le> r\<close>; so -10 itself is High and 0 itself is Healthy. The engine has the revenue
  change as its only argument. Each level string starts with its coloured circle.
\<close>

theorem risk_classifier_thresholds:
  fixes r :: real
  shows "(r \<le> - 10 \<longrightarrow> risk_engine (Fin r) =
            (red_circle @ '' High Risk'',
             ''Significant revenue decline detected. Immediate investigation required.''))
       \<and> (- 10 < r \<and> r < 0 \<longrightarrow> risk_engine (Fin r) =
            (yellow_circle @ '' Medium Risk'',
             ''Moderate revenue decline. Monitor closely.''))
       \<and> (0 \<le> r \<longrightarrow> risk_engine (Fin r) =
            (green_circle @ '' Healthy'',
             ''Revenue performance is stable or growing.''))"
  by (simp add: risk_engine_def)

theorem risk_classifier_thresholds_witness:
  "risk_engine (Fin (- 10)) =
     (red_circle @ '' High Risk'',
      ''Significant revenue decline detected. Immediate investigation required.'')
   \<and> risk_engine (Fin (- 5)) =
     (yellow_circle @ '' Medium Risk'', ''Moderate revenue decline. Monitor closely.'')
   \<and> risk_engine (Fin 0) =
     (green_circle @ '' Healthy'', ''Revenue performance is stable or growing.'')"
  using risk_classifier_thresholds [of "- 10"] risk_classifier_thresholds [of "- 5"]
    risk_classifier_thresholds [of 0]
  by simp

section \<open>Diagnosis\<close>

text \<open>
  Claim C4. For every pair of real changes \<open>(r, q)\<close> of revenue and orders the diagnosis is
  "Revenue and order volume declined together. Possible demand contraction." when both are
  negative, "Revenue declined while order volume remained stable. Potential pricing issue."
  when \<open>r < 0\<close> and \<open>0 \<le> q\<close>, and "No major structural performance issue detected."
  otherwise. The first rule wins: a dashboard whose revenue and order changes are both
  negative shows the first statement, whatever its AOV change is.
\<close>

theorem diagnosis_rules:
  fixes r q :: real
  shows "(r < 0 \<and> q < 0 \<longrightarrow> diagnosis_engine (Fin r) (Fin q) =
            ''Revenue and order volume declined together. Possible demand contraction.'')
       \<and> (r < 0 \<and> 0 \<le> q \<longrightarrow> diagnosis_engine (Fin r) (Fin q) =
            ''Revenue declined while order volume remained stable. Potential pricing issue.'')
       \<and> (0 \<le> r \<longrightarrow> diagnosis_engine (Fin r) (Fin q) =
            ''No major structural performance issue detected.'')
       \<and> (app polyfit up = Inr d \<and> mom_change (metrics d) = Fin r
            \<and> order_change (metrics d) = Fin q \<and> r < 0 \<and> q < 0 \<longrightarrow> diagnosis d =
            ''Revenue and order volume declined together. Possible demand contraction.'')"
  using app_wiring(3) [of polyfit up d]
  by (auto simp: diagnosis_engine_def np_ge_def)

theorem diagnosis_rules_witness:
  "diagnosis_engine (Fin (- 10)) (Fin (- 20)) =
     ''Revenue and order volume declined together. Possible demand contraction.''
   \<and> diagnosis_engine (Fin (- 10)) (Fin 0) =
     ''Revenue declined while order volume remained stable. Potential pricing issue.''
   \<and> diagnosis_engine (Fin 0) (Fin (- 5)) =
     ''No major structural performance issue detected.''
   \<and> map_sum id diagnosis
        (app (\<lambda>x y. Inr (Fin (- 100), Fin 1000))
           (Some \<lparr>columns = [''Month'', ''Revenue'', ''Orders''], Month = [''Jan'', ''Feb''],
                  Revenue = Int64 [1000, 900], Orders = Int64 [50, 40]\<rparr>)) =
     Inr ''Revenue and order volume declined together. Possible demand contraction.''"
proof -
  let ?fit = "\<lambda>(x::real list) (y::npfloat list). Inr (Fin (- 100), Fin 1000) :: py_exception + npfloat \<times> npfloat"
  let ?up = "Some \<lparr>columns = [''Month'', ''Revenue'', ''Orders''], Month = [''Jan'', ''Feb''],
                  Revenue = Int64 [1000, 900], Orders = Int64 [50, 40]\<rparr>"
  obtain d where d: "app ?fit ?up = Inr d" "mom_change (metrics d) = Fin (- 10)"
    "order_change (metrics d) = Fin (- 20)"
    using app_jan_feb by simp
  have "diagnosis d =
      ''Revenue and order volume declined together. Possible demand contraction.''"
    using diagnosis_rules [of "- 10" "- 20" ?fit ?up d] d by simp
  then have "map_sum id diagnosis (app ?fit ?up) =
      Inr ''Revenue and order volume declined together. Possible demand contraction.''"
    using d(1) by simp
  then show ?thesis
    using diagnosis_rules [of "- 10" "- 20"] diagnosis_rules [of "- 10" 0]
      diagnosis_rules [of 0 "- 5"]
    by simp
qed

section \<open>The commentary follows the level\<close>

text \<open>
  Claim C9. The commentary is derived from the risk level alone: the level High Risk gives
  "Revenue contraction detected alongside order decline. Immediate intervention
  recommended.", Medium Risk gives "Early signs of revenue deceleration observed. Close
  monitoring advised." and Healthy gives "Revenue trajectory remains stable with positive
  order dynamics. No material performance anomaly detected."; the revenue change and the
  order change that are passed along do not influence the result. The level of a dashboard
  is one of these three, and its commentary is that of its level.
\<close>

theorem commentary_from_level:
  "ai_diagnosis_layer rc oc (red_circle @ '' High Risk'') =
     ''Revenue contraction detected alongside order decline. Immediate intervention recommended.''
   \<and> ai_diagnosis_layer rc oc (yellow_circle @ '' Medium Risk'') =
     ''Early signs of revenue deceleration observed. Close monitoring advised.''
   \<and> ai_diagnosis_layer rc oc (green_circle @ '' Healthy'') =
     ''Revenue trajectory remains stable with positive order dynamics. No material performance anomaly detected.''
   \<and> ai_diagnosis_layer rc oc lvl = ai_diagnosis_layer rc' oc' lvl
   \<and> (app polyfit up = Inr d \<longrightarrow>
        risk_level d \<in> {red_circle @ '' High Risk'', yellow_circle @ '' Medium Risk'',
                         green_circle @ '' Healthy''}
        \<and> ai_commentary d = ai_diagnosis_layer rc oc (risk_level d))"
proof -
  have lv: "fst (risk_engine m) \<in> {red_circle @ '' High Risk'', yellow_circle @ '' Medium Risk'',
                         green_circle @ '' Healthy''}" for m
    by (simp add: risk_engine_def)
  have ind: "ai_diagnosis_layer a b l = ai_diagnosis_layer a' b' l" for a b a' b' l
    by (simp add: ai_diagnosis_layer_def)
  have "app polyfit up = Inr d \<longrightarrow>
        risk_level d \<in> {red_circle @ '' High Risk'', yellow_circle @ '' Medium Risk'',
                         green_circle @ '' Healthy''}
        \<and> ai_commentary d = ai_diagnosis_layer rc oc (risk_level d)"
    using app_wiring(1,5) [of polyfit up d] lv ind by metis
  moreover have "ai_diagnosis_layer rc oc (red_circle @ '' High Risk'') =
     ''Revenue contraction detected alongside order decline. Immediate intervention recommended.''"
    by (simp add: ai_diagnosis_layer_def startswith_def red_circle_def)
  moreover have "ai_diagnosis_layer rc oc (yellow_circle @ '' Medium Risk'') =
     ''Early signs of revenue deceleration observed. Close monitoring advised.''"
    by (simp add: ai_diagnosis_layer_def startswith_def red_circle_def yellow_circle_def)
  moreover have "ai_diagnosis_layer rc oc (green_circle @ '' Healthy'') =
     ''Revenue trajectory remains stable with positive order dynamics. No material performance anomaly detected.''"
    by (simp add: ai_diagnosis_layer_def startswith_def red_circle_def yellow_circle_def
        green_circle_def)
  ultimately show ?thesis using ind [of rc oc lvl rc' oc'] by simp
qed

theorem commentary_from_level_witness:
  "map_sum id ai_commentary
     (app (\<lambda>x y. Inr (Fin (- 100), Fin 1000))
        (Some \<lparr>columns = [''Month'', ''Revenue'', ''Orders''], Month = [''Jan'', ''Feb''],
               Revenue = Int64 [1000, 900], Orders = Int64 [50, 40]\<rparr>)) =
   Inr (ai_diagnosis_layer NaN NaN (red_circle @ '' High Risk''))"
proof -
  let ?fit = "\<lambda>(x::real list) (y::npfloat list). Inr (Fin (- 100), Fin 1000) :: py_exception + npfloat \<times> npfloat"
  let ?up = "Some \<lparr>columns = [''Month'', ''Revenue'', ''Orders''], Month = [''Jan'', ''Feb''],
                  Revenue = Int64 [1000, 900], Orders = Int64 [50, 40]\<rparr>"
  obtain d where d: "app ?fit ?up = Inr d" "risk_level d = red_circle @ '' High Risk''"
    using app_jan_feb by simp
  have "ai_commentary d = ai_diagnosis_layer NaN NaN (risk_level d)"
    using commentary_from_level
      [where rc = NaN and oc = NaN and polyfit = ?fit and up = ?up and d = d] d(1)
    by simp
  then show ?thesis using d by simp
qed

section \<open>Risk level and diagnosis agree\<close>

text \<open>
  Claim C10. For every pair of finite real changes \<open>(r, q)\<close> the risk engine returns Healthy
  if and only if the diagnosis engine returns "No major structural performance issue
  detected."; both hold exactly when \<open>0 \<le> r\<close>. So the level is High Risk or Medium Risk
  exactly when the diagnosis is one of the two decline statements.
\<close>

theorem risk_healthy_iff_no_issue:
  fixes r q :: real
  shows "(fst (risk_engine (Fin r)) = green_circle @ '' Healthy'')
           = (diagnosis_engine (Fin r) (Fin q) =
                ''No major structural performance issue detected.'')
       \<and> (fst (risk_engine (Fin r)) = green_circle @ '' Healthy'') = (0 \<le> r)
       \<and> (diagnosis_engine (Fin r) (Fin q) \<in>
             {''Revenue and order volume declined together. Possible demand contraction.'',
              ''Revenue declined while order volume remained stable. Potential pricing issue.''})
           = (fst (risk_engine (Fin r)) \<in>
                {red_circle @ '' High Risk'', yellow_circle @ '' Medium Risk''})"
  by (auto simp: risk_engine_def diagnosis_engine_def np_ge_def red_circle_def
      yellow_circle_def green_circle_def)

section \<open>Fewer than two rows\<close>

text \<open>
  Claim C2 says that a data frame with fewer than 2 rows and all required columns fails with
  an InsufficientDataError. The script has no row-count check: with one row it stops with
  the IndexError of the read of the second-to-last revenue, whatever the solver is.
\<close>

theorem app_one_row_index_error:
  "\<forall>polyfit.
     app polyfit
       (Some \<lparr>columns = [''Month'', ''Revenue'', ''Orders''], Month = [''Jan''],
              Revenue = Int64 [1000], Orders = Int64 [50]\<rparr>) =
     Inl (Raised IndexError)"
  by (simp add: app_eval)

text \<open>
  Claim C2, as amended. For every data frame with fewer than 2 rows whose required columns
  are present, the script stops with an uncaught IndexError, raised by a positional read of
  the Revenue column inside the KPI calculations; no change, risk level, diagnosis, score
  or forecast is computed and no dashboard is produced.
\<close>

theorem app_short_dataset:
  assumes "issubset required_columns (columns df)" and "len_df df < 2"
  shows "kpi_calculations df = Inl IndexError \<and> app polyfit (Some df) = Inl (Raised IndexError)"
proof -
  have "iloc (cells (Revenue df)) (- 2) = Inl IndexError"
    using assms(2) by (simp add: iloc_short len_df_def)
  then have "kpi_calculations df = Inl IndexError"
    by (auto simp: kpi_calculations_def split: sum.splits dest: iloc_error)
  then show ?thesis
    using assms(1) by (simp add: app_def)
qed

theorem app_short_dataset_witness:
  "app (\<lambda>x y. Inl LinAlgError)
     (Some \<lparr>columns = [''Orders'', ''Month'', ''Revenue''], Month = [],
            Revenue = Float64 [], Orders = Int64 []\<rparr>) = Inl (Raised IndexError)
   \<and> kpi_calculations
       \<lparr>columns = [''Month'', ''Revenue'', ''Orders'', ''Region''], Month = [''2024-01''],
        Revenue = Float64 [Fin 250], Orders = Int64 [4]\<rparr> = Inl IndexError"
  using app_short_dataset
      [of "\<lparr>columns = [''Orders'', ''Month'', ''Revenue''], Month = [],
            Revenue = Float64 [], Orders = Int64 []\<rparr>" "\<lambda>x y. Inl LinAlgError"]
    app_short_dataset
      [of "\<lparr>columns = [''Month'', ''Revenue'', ''Orders'', ''Region''], Month = [''2024-01''],
        Revenue = Float64 [Fin 250], Orders = Int64 [4]\<rparr>"]
  by (simp add: issubset_def required_columns_def len_df_def)

section \<open>Sums of binary64 numbers that are not negative\<close>

lemma ilog2_unique:
  assumes "0 < x" "2 powi e \<le> x" "x < 2 powi (e + 1)"
  shows "ilog2 x = e"
proof (rule ccontr)
  assume ne: "ilog2 x \<noteq> e"
  have b: "2 powi ilog2 x \<le> x" "x < 2 powi (ilog2 x + 1)"
    using assms(1) by (rule ilog2_bounds)+
  show False
  proof (cases "ilog2 x < e")
    case True
    then have "(2::real) powi (ilog2 x + 1) \<le> 2 powi e"
      by (intro power_int_increasing) simp_all
    with b(2) assms(2) show False by linarith
  next
    case False
    with ne have "e + 1 \<le> ilog2 x" by simp
    then have "(2::real) powi (e + 1) \<le> 2 powi ilog2 x"
      by (intro power_int_increasing) simp_all
    with b(1) assms(3) show False by linarith
  qed
qed

lemma py_round_le_pow53:
  assumes "0 < m"
  shows "py_round (m / quantum m) \<le> 2 ^ 53"
proof -
  have "m < 2 powi (ilog2 m + 1)" using assms by (rule ilog2_bounds)
  also have "\<dots> \<le> 2 powi (max (ilog2 m) (- 1022) + 1)"
    by (intro power_int_increasing) simp_all
  also have "\<dots> = 2 powi max (ilog2 m) (- 1022) * 2"
    by (simp add: power_int_add)
  also have "\<dots> = quantum m * 2 ^ 53"
    using quantum_scale [of m] by simp
  finally have "m / quantum m \<le> 2 ^ 53"
    using quantum_pos [of m] by (simp add: field_simps)
  then have "py_round (m / quantum m) \<le> py_round (of_int (2 ^ 53))"
    by (intro py_round_mono) simp
  then show ?thesis
    by (simp only: py_round_of_int)
qed

lemma rounded_magnitude_idem:
  assumes "0 < m"
  shows "rounded_magnitude (rounded_magnitude m) = rounded_magnitude m"
proof -
  define E where "E = max (ilog2 m) (- 1022)"
  define q where "q = quantum m"
  define n where "n = py_round (m / q)"
  define v where "v = rounded_magnitude m"
  have q: "0 < q" "q = 2 powi (E - 52)" "q * 2 ^ 52 = 2 powi E"
    using quantum_pos [of m] quantum_scale [of m] by (simp_all add: q_def E_def quantum_def)
  have v: "v = of_int n * q" by (simp add: v_def rounded_magnitude_def n_def q_def)
  have n53: "n \<le> 2 ^ 53" using py_round_le_pow53 [OF assms] by (simp add: n_def q_def)
  have n0: "0 \<le> n" using assms q(1) by (simp add: n_def py_round_nonneg)
  have same_q: "rounded_magnitude v = v" if qv: "quantum v = q"
  proof -
    have d: "v / q = of_int n" using q(1) by (simp add: v)
    have "rounded_magnitude v = of_int (py_round (v / q)) * q"
      by (simp only: rounded_magnitude_def qv)
    also have "\<dots> = of_int n * q"
      by (simp only: d py_round_of_int)
    finally show ?thesis by (simp only: v)
  qed
  have "rounded_magnitude v = v"
  proof (cases "n = 0")
    case True
    then have "v = 0" by (simp add: v)
    then show ?thesis by (simp add: rounded_magnitude_def py_round_def)
  next
    case False
    with n0 have n1: "1 \<le> n" by simp
    then have "(of_int 1 :: real) \<le> of_int n" by (simp only: of_int_le_iff)
    then have vpos: "0 < v" using q(1) by (simp add: v)
    show ?thesis
    proof (cases "n = 2 ^ 53")
      case True
      then have "v = 2 ^ 53 * q" by (simp add: v)
      also have "\<dots> = 2 powi E * 2" using q(3) by simp
      also have "\<dots> = 2 powi (E + 1)" by (simp add: power_int_add)
      finally have vE: "v = 2 powi (E + 1)" .
      have "(2::real) powi (E + 1) < 2 powi (E + 1 + 1)"
        by (intro power_int_strict_increasing) simp_all
      then have "ilog2 v = E + 1"
        using vpos vE by (intro ilog2_unique) simp_all
      moreover have "- 1022 \<le> E" by (simp add: E_def)
      ultimately have "quantum v = 2 powi (E + 1 - 52)"
        by (simp add: quantum_def max_def)
      also have "\<dots> = 2 powi (E - 52) * 2"
        using power_int_add [of "2::real" "E - 52" 1] by (simp add: algebra_simps)
      finally have qv: "quantum v = q * 2" by (simp add: q(2))
      have d: "v / (q * 2) = of_int (2 ^ 52)"
        using q(1) by (simp add: v True)
      have "rounded_magnitude v = of_int (py_round (v / (q * 2))) * (q * 2)"
        by (simp only: rounded_magnitude_def qv)
      also have "\<dots> = of_int (2 ^ 52) * (q * 2)"
        by (simp only: d py_round_of_int)
      also have "\<dots> = v"
        by (simp add: v True)
      finally show ?thesis .
    next
      case False
      with n53 have "n < 2 ^ 53" by simp
      then have "(of_int n :: real) < of_int (2 ^ 53)" by (simp only: of_int_less_iff)
      then have "v < 2 ^ 53 * q" using q(1) by (simp add: v)
      also have "\<dots> = 2 powi E * 2" using q(3) by simp
      also have "\<dots> = 2 powi (E + 1)" by (simp add: power_int_add)
      finally have hi: "v < 2 powi (E + 1)" .
      have "max (ilog2 v) (- 1022) = E"
      proof (cases "- 1022 \<le> ilog2 m")
        case True
        then have E: "E = ilog2 m" by (simp add: E_def)
        have "2 powi E \<le> v"
          unfolding E v_def using assms True by (rule rounded_magnitude_lower)
        then have "ilog2 v = E" using vpos hi by (intro ilog2_unique)
        then show ?thesis using True E by simp
      next
        case False
        then have E: "E = - 1022" by (simp add: E_def)
        have "ilog2 v \<le> - 1022"
        proof (rule ccontr)
          assume "\<not> ilog2 v \<le> - 1022"
          then have "(2::real) powi (- 1021) \<le> 2 powi ilog2 v"
            by (intro power_int_increasing) simp_all
          moreover have "2 powi ilog2 v \<le> v" using vpos by (rule ilog2_bounds)
          ultimately show False using hi by (simp add: E)
        qed
        then show ?thesis by (simp add: E)
      qed
      then have "quantum v = q" by (simp add: quantum_def q(2))
      then show ?thesis by (rule same_q)
    qed
  qed
  then show ?thesis by (simp add: v_def)
qed


lemma round_binary64_nonneg:
  assumes "0 \<le> m"
  shows "nonneg_f64 (round_binary64 False m)"
proof (cases "m = 0")
  case True
  then show ?thesis
    by (simp add: round_binary64_def zero_of_def nonneg_f64_def f64_def)
next
  case False
  then have pos: "0 < m" using assms by simp
  define v where "v = rounded_magnitude m"
  have v0: "0 \<le> v" using assms by (simp add: v_def rounded_magnitude_nonneg)
  have idem: "rounded_magnitude v = v"
    using rounded_magnitude_idem [OF pos] by (simp add: v_def)
  have "f64 v = Fin v" if "\<not> 2 ^ 1024 \<le> v" "v \<noteq> 0"
    using that v0 idem by (simp add: f64_def round_binary64_def)
  moreover have "f64 0 = Fin 0"
    by (simp add: f64_def round_binary64_def zero_of_def)
  ultimately show ?thesis
    using v0 pos unfolding v_def
    by (auto simp: round_binary64_def nonneg_f64_def zero_of_def inf_of_def)
qed

lemma nonneg_f64_cases:
  assumes "nonneg_f64 a"
  obtains "a = PInf" | v where "a = Fin v" "0 \<le> v" "f64 v = Fin v"
  using assms by (cases a) (auto simp: nonneg_f64_def)

lemma f64_fixed_point:
  assumes "0 \<le> v" "f64 v = Fin v"
  shows "round_binary64 False v = Fin v"
  using assms by (simp add: f64_def)

lemma nonneg_f64_PInf: "nonneg_f64 PInf"
  by (simp add: nonneg_f64_def)

lemma np_add_nonneg:
  assumes "nonneg_f64 a" "nonneg_f64 b"
  shows "np_add a b =
    (if a = PInf \<or> b = PInf then PInf else round_binary64 False (val_of a + val_of b))"
  using assms(1)
proof (rule nonneg_f64_cases)
  assume "a = PInf"
  with assms(2) show ?thesis
    by (auto simp: np_add_def elim!: nonneg_f64_cases)
next
  fix x assume a: "a = Fin x" "0 \<le> x" "f64 x = Fin x"
  from assms(2) show ?thesis
  proof (rule nonneg_f64_cases)
    assume "b = PInf"
    then show ?thesis by (simp add: np_add_def a)
  next
    fix y assume b: "b = Fin y" "0 \<le> y" "f64 y = Fin y"
    have rx: "round_binary64 False x = Fin x" and ry: "round_binary64 False y = Fin y"
      using a b by (simp_all add: f64_fixed_point)
    have z: "round_binary64 False 0 = Fin 0"
      by (simp add: round_binary64_def zero_of_def)
    consider "x = 0" "y = 0" | "x \<noteq> 0" "y = 0" | "x = 0" "y \<noteq> 0" | "x \<noteq> 0" "y \<noteq> 0"
      by blast
    then show ?thesis
    proof cases
      case 1 then show ?thesis by (simp add: np_add_def a b z zero_of_def)
    next
      case 2 then show ?thesis by (simp add: np_add_def a b rx)
    next
      case 3 then show ?thesis by (simp add: np_add_def a b ry)
    next
      case 4
      then have "0 < x + y" using a(2) b(2) by linarith
      then show ?thesis using 4 by (simp add: np_add_def a b)
    qed
  qed
qed

lemma np_add_nonneg_closed:
  assumes "nonneg_f64 a" "nonneg_f64 b"
  shows "nonneg_f64 (np_add a b)"
proof -
  have "0 \<le> val_of a + val_of b"
    using assms by (auto elim!: nonneg_f64_cases)
  then have "nonneg_f64 (round_binary64 False (val_of a + val_of b))"
    by (rule round_binary64_nonneg)
  then show ?thesis
    unfolding np_add_nonneg [OF assms] by (simp add: nonneg_f64_PInf)
qed

lemma np_le_nonneg:
  assumes "nonneg_f64 a" "nonneg_f64 b"
  shows "np_le a b = (b = PInf \<or> (a \<noteq> PInf \<and> val_of a \<le> val_of b))"
  using assms by (auto elim!: nonneg_f64_cases)

lemma np_add_mono:
  assumes "nonneg_f64 a" "nonneg_f64 a'" "nonneg_f64 b" "nonneg_f64 b'"
    and "np_le a a'" "np_le b b'"
  shows "np_le (np_add a b) (np_add a' b')"
proof (cases "a' = PInf \<or> b' = PInf")
  case True
  then have "np_add a' b' = PInf" by (simp add: np_add_nonneg assms)
  then show ?thesis
    using np_add_nonneg_closed [OF assms(1,3)] by (auto elim!: nonneg_f64_cases)
next
  case False
  then have fin: "a \<noteq> PInf" "b \<noteq> PInf" "val_of a \<le> val_of a'" "val_of b \<le> val_of b'"
    using assms by (auto simp: np_le_nonneg)
  have "0 \<le> val_of a + val_of b"
    using assms(1,3) by (auto elim!: nonneg_f64_cases)
  then have "np_le (round_binary64 False (val_of a + val_of b))
      (round_binary64 False (val_of a' + val_of b'))"
    using fin by (intro round_binary64_mono) simp_all
  then show ?thesis
    using False fin by (simp add: np_add_nonneg assms)
qed

lemma np_mul_scale:
  assumes "0 \<le> x" "0 < c"
  shows "np_mul (Fin x) (Fin c) = round_binary64 False (x * c)"
  using assms by (simp add: np_mul_def)

lemma f64_weights:
  "f64 (3 / 2) = Fin (3 / 2)" "f64 (6 / 5) = Fin (5404319552844595 / 4503599627370496)"
  by (simp_all add: float_eval)

section \<open>The risk score\<close>

lemma weighted_sum_finite:
  "weighted_sum (Fin r) (Fin q) (Fin a) =
     np_add (np_add (round_binary64 False (\<bar>r\<bar> * 2)) (round_binary64 False (\<bar>q\<bar> * 1.5)))
            (round_binary64 False (\<bar>a\<bar> * (5404319552844595 / 4503599627370496)))"
  by (simp add: weighted_sum_def f64_weights np_mul_scale)

lemma weighted_sum_nonneg: "nonneg_f64 (weighted_sum (Fin r) (Fin q) (Fin a))"
  unfolding weighted_sum_finite
  by (intro np_add_nonneg_closed round_binary64_nonneg) simp_all

lemma weighted_sum_mono:
  assumes "\<bar>r\<bar> \<le> \<bar>r'\<bar>" "\<bar>q\<bar> \<le> \<bar>q'\<bar>" "\<bar>a\<bar> \<le> \<bar>a'\<bar>"
  shows "np_le (weighted_sum (Fin r) (Fin q) (Fin a)) (weighted_sum (Fin r') (Fin q') (Fin a'))"
  unfolding weighted_sum_finite
  using assms
  by (intro np_add_mono np_add_nonneg_closed round_binary64_nonneg round_binary64_mono)
    simp_all

lemma risk_scorer_outcome:
  "risk_scorer (Fin r) (Fin q) (Fin a) =
     (case weighted_sum (Fin r) (Fin q) (Fin a) of
        Fin x \<Rightarrow> Inr (min (py_round x) 100)
      | _ \<Rightarrow> Inl OverflowError)"
  using weighted_sum_nonneg [of r q a]
  by (auto simp: risk_scorer_def elim!: nonneg_f64_cases)

text \<open>
  Claim C5 says that for every triple of real deltas the risk score equals
  \<open>round(|r| * 2 + |q| * 1.5 + |a| * 1.2)\<close> clamped to 100 and is always an integer between
  0 and 100. The script computes the weighted sum in binary64. For the deltas -12.5, -25
  and 16.666666666666668 the binary64 sum is 82.5 and the score 82, while the sum of the
  real numbers lies above 82.5 and rounds to 83; and for a delta of \<open>-2^1023\<close> the sum is
  Infinity and \<^verbatim>\<open>round\<close> raises an OverflowError instead of returning a score.
\<close>

theorem risk_score_not_exact_sum:
  "risk_scorer (Fin (- 12.5)) (Fin (- 25)) (Fin (4691249611844267 / 281474976710656)) = Inr 82
   \<and> min (py_round (\<bar>- 12.5\<bar> * 2 + \<bar>- 25\<bar> * 1.5
                     + \<bar>4691249611844267 / 281474976710656\<bar> * 1.2)) 100 = 83
   \<and> risk_scorer (Fin (- (2 ^ 1023))) (Fin 25) (Fin 0) = Inl OverflowError"
  by (simp add: risk_scorer_def float_eval)

text \<open>
  Claim C5, as amended. For every triple of finite deltas the weighted sum
  \<open>|r| * 2 + |q| * 1.5 + |a| * 1.2\<close> is computed in binary64, each product and each sum
  rounded to the nearest binary64 number. If the sum overflows to Infinity the script
  raises an OverflowError and produces no score. Otherwise the sum is a finite number
  \<open>x \<ge> 0\<close> and the score is the integer nearest to \<open>x\<close>, the even one of two equally
  near, clamped to at most 100: an integer between 0 and 100, and exactly 100 whenever the
  rounded sum exceeds 100.
\<close>

theorem risk_score_binary64:
  fixes r q a :: real
  shows "(weighted_sum (Fin r) (Fin q) (Fin a) = PInf
            \<and> risk_scorer (Fin r) (Fin q) (Fin a) = Inl OverflowError)
       \<or> (\<exists>x n. weighted_sum (Fin r) (Fin q) (Fin a) = Fin x \<and> 0 \<le> x
            \<and> \<bar>of_int n - x\<bar> \<le> 1 / 2 \<and> (\<bar>of_int n - x\<bar> = 1 / 2 \<longrightarrow> even n)
            \<and> risk_scorer (Fin r) (Fin q) (Fin a) = Inr (min n 100)
            \<and> 0 \<le> min n 100 \<and> min n 100 \<le> 100
            \<and> (100 < n \<longrightarrow> risk_scorer (Fin r) (Fin q) (Fin a) = Inr 100))"
  using weighted_sum_nonneg [of r q a]
proof (rule nonneg_f64_cases)
  assume "weighted_sum (Fin r) (Fin q) (Fin a) = PInf"
  then show ?thesis by (simp add: risk_scorer_outcome)
next
  fix x assume x: "weighted_sum (Fin r) (Fin q) (Fin a) = Fin x" "0 \<le> x" "f64 x = Fin x"
  have "\<bar>of_int (py_round x) - x\<bar> \<le> 1 / 2"
    by (rule py_round_near)
  moreover have "\<bar>of_int (py_round x) - x\<bar> = 1 / 2 \<longrightarrow> even (py_round x)"
    using py_round_tie_even by blast
  moreover have "0 \<le> py_round x" using x(2) by (rule py_round_nonneg)
  ultimately show ?thesis
    using x by (auto simp: risk_scorer_outcome intro!: exI [of _ "py_round x"])
qed

theorem risk_score_binary64_witness:
  "risk_scorer (Fin (- 10)) (Fin 0) (Fin (- 10)) = Inr 32
   \<and> risk_scorer (Fin 0.25) (Fin 0) (Fin 0) = Inr 0
   \<and> risk_scorer (Fin 0.75) (Fin 0) (Fin 0) = Inr 2
   \<and> risk_scorer (Fin 1.25) (Fin 0) (Fin 0) = Inr 2
   \<and> risk_scorer (Fin (- 30)) (Fin 20) (Fin 12.5) = Inr 100"
proof -
  have score: "risk_scorer (Fin r) (Fin q) (Fin a) = Inr (min (py_round x) 100)"
    if "weighted_sum (Fin r) (Fin q) (Fin a) = Fin x" for r q a x
  proof -
    from risk_score_binary64 [of r q a] that
    obtain n where n: "\<bar>of_int n - x\<bar> \<le> 1 / 2" "\<bar>of_int n - x\<bar> = 1 / 2 \<longrightarrow> even n"
      "risk_scorer (Fin r) (Fin q) (Fin a) = Inr (min n 100)"
      by auto
    from n(1,2) have "py_round x = n" by (rule py_round_unique)
    with n(3) show ?thesis by simp
  qed
  have "weighted_sum (Fin (- 10)) (Fin 0) (Fin (- 10)) = Fin 32"
    "weighted_sum (Fin 0.25) (Fin 0) (Fin 0) = Fin 0.5"
    "weighted_sum (Fin 0.75) (Fin 0) (Fin 0) = Fin 1.5"
    "weighted_sum (Fin 1.25) (Fin 0) (Fin 0) = Fin 2.5"
    "weighted_sum (Fin (- 30)) (Fin 20) (Fin 12.5) = Fin 105"
    by (simp_all add: float_eval)
  from this [THEN score] show ?thesis
    by (simp add: py_round_def)
qed

text \<open>
  Claim C6 says that of two delta triples the one with the larger absolute value in a
  component always produces a risk score at least as large. When the larger delta makes
  the weighted sum overflow there is no score to compare: the script raises.
\<close>

theorem risk_score_larger_delta_overflows:
  "\<bar>1 :: real\<bar> \<le> \<bar>2 ^ 1023\<bar>
   \<and> risk_scorer (Fin 1) (Fin 0) (Fin 0) = Inr 2
   \<and> risk_scorer (Fin (2 ^ 1023)) (Fin 0) (Fin 0) = Inl OverflowError"
  by (simp add: risk_scorer_def float_eval)

text \<open>
  Claim C6, as amended. The risk score is monotonically non-decreasing in the absolute
  value of each delta wherever it exists: of two triples of finite deltas of which the
  second is at least as large in absolute value in every component (in particular when two
  components agree), the second has a score at least as large whenever both have a score;
  and if the first raises, it raises an OverflowError and so does the second.
\<close>

theorem risk_score_monotone:
  fixes r q a r' q' a' :: real
  assumes "\<bar>r\<bar> \<le> \<bar>r'\<bar>" "\<bar>q\<bar> \<le> \<bar>q'\<bar>" "\<bar>a\<bar> \<le> \<bar>a'\<bar>"
  shows "(\<forall>m n. risk_scorer (Fin r) (Fin q) (Fin a) = Inr m
              \<and> risk_scorer (Fin r') (Fin q') (Fin a') = Inr n \<longrightarrow> m \<le> n)
       \<and> (\<forall>e. risk_scorer (Fin r) (Fin q) (Fin a) = Inl e \<longrightarrow>
              e = OverflowError \<and> risk_scorer (Fin r') (Fin q') (Fin a') = Inl OverflowError)"
proof -
  have le: "np_le (weighted_sum (Fin r) (Fin q) (Fin a)) (weighted_sum (Fin r') (Fin q') (Fin a'))"
    using assms by (rule weighted_sum_mono)
  have nn: "nonneg_f64 (weighted_sum (Fin r) (Fin q) (Fin a))"
    "nonneg_f64 (weighted_sum (Fin r') (Fin q') (Fin a'))"
    by (rule weighted_sum_nonneg)+
  from nn(1) show ?thesis
  proof (rule nonneg_f64_cases)
    assume w: "weighted_sum (Fin r) (Fin q) (Fin a) = PInf"
    then have "weighted_sum (Fin r') (Fin q') (Fin a') = PInf"
      using le nn(2) by (auto elim!: nonneg_f64_cases)
    with w show ?thesis by (simp add: risk_scorer_outcome)
  next
    fix x assume x: "weighted_sum (Fin r) (Fin q) (Fin a) = Fin x" "0 \<le> x" "f64 x = Fin x"
    from nn(2) show ?thesis
    proof (rule nonneg_f64_cases)
      assume "weighted_sum (Fin r') (Fin q') (Fin a') = PInf"
      then show ?thesis using x by (simp add: risk_scorer_outcome)
    next
      fix y assume y: "weighted_sum (Fin r') (Fin q') (Fin a') = Fin y" "0 \<le> y" "f64 y = Fin y"
      then have "x \<le> y" using le x by simp
      then have "py_round x \<le> py_round y" by (rule py_round_mono)
      then show ?thesis using x y by (simp add: risk_scorer_outcome)
    qed
  qed
qed

theorem risk_score_monotone_witness:
  "risk_scorer (Fin 1) (Fin 2) (Fin 3) = Inr 9
   \<and> risk_scorer (Fin (- 4)) (Fin 2) (Fin 3) = Inr 15
   \<and> risk_scorer (Fin 1) (Fin (- 5)) (Fin 3) = Inr 13
   \<and> risk_scorer (Fin 1) (Fin 2) (Fin 40) = Inr 53
   \<and> (9::int) \<le> 15 \<and> (9::int) \<le> 13 \<and> (9::int) \<le> 53
   \<and> risk_scorer (Fin (2 ^ 1023)) (Fin 0) (Fin 0) = Inl OverflowError
   \<and> risk_scorer (Fin (- (2 ^ 1023))) (Fin 1) (Fin 0) = Inl OverflowError"
proof -
  have v: "risk_scorer (Fin 1) (Fin 2) (Fin 3) = Inr 9"
    "risk_scorer (Fin (- 4)) (Fin 2) (Fin 3) = Inr 15"
    "risk_scorer (Fin 1) (Fin (- 5)) (Fin 3) = Inr 13"
    "risk_scorer (Fin 1) (Fin 2) (Fin 40) = Inr 53"
    "risk_scorer (Fin (2 ^ 1023)) (Fin 0) (Fin 0) = Inl OverflowError"
    by (simp_all add: risk_scorer_def float_eval)
  have "risk_scorer (Fin (- (2 ^ 1023))) (Fin 1) (Fin 0) = Inl OverflowError"
    using risk_score_monotone [of "2 ^ 1023" "- (2 ^ 1023)" 0 1 0 0] v(5) by simp
  moreover have "(9::int) \<le> 15" "(9::int) \<le> 13" "(9::int) \<le> 53"
    using risk_score_monotone [of 1 "- 4" 2 2 3 3] risk_score_monotone [of 1 1 2 "- 5" 3 3]
      risk_score_monotone [of 1 1 2 2 3 40] v
    by simp_all
  ultimately show ?thesis using v by simp
qed

section \<open>The KPI calculations read the last two rows\<close>

lemma np_minus_int64_exact:
  fixes u w :: "64 word"
  assumes "- (2 ^ 63) \<le> sint w - sint u" "sint w - sint u < 2 ^ 63"
  shows "to_f64 (np_minus (I64 w) (I64 u)) = f64 (of_int (sint w - sint u))"
proof -
  have "sint (w - u) = sint w - sint u"
    using assms by (simp add: sint_word_diff signed_take_bit_int_eq_self)
  then show ?thesis by simp
qed

lemma np_minus_uint64_exact:
  fixes u w :: "64 word"
  assumes "uint u \<le> uint w"
  shows "to_f64 (np_minus (U64 w) (U64 u)) = f64 (of_int (uint w - uint u))"
  using assms by (simp add: uint_sub_lem [THEN iffD1])

text \<open>
  Claim C8 says that rows before the last two have no effect on any computed field and
  that each percentage delta equals \<open>(current - previous) / previous * 100\<close>. Both fail
  on the script. In a \<^verbatim>\<open>uint64\<close> column the difference wraps around: for a previous
  revenue of \<open>10^19\<close> and a current revenue of \<open>9 * 10^18\<close> the revenue change is about
  174.47, not -10. And a row before the last two decides the dtype of its column: after a
  first revenue of 5 the revenues 1000, 900 are \<^verbatim>\<open>int64\<close> and the change is -10, after a
  first revenue of 18446744073709551615 they are \<^verbatim>\<open>uint64\<close> and the change is
  1844674407370955264.
\<close>

theorem kpi_wraps_and_depends_on_dtype:
  "map_sum id mom_change
     (kpi_calculations
        \<lparr>columns = [''Month'', ''Revenue'', ''Orders''], Month = [''Jan'', ''Feb''],
         Revenue = UInt64 [10000000000000000000, 9000000000000000000],
         Orders = Int64 [50, 50]\<rparr>) = Inr (Fin (6138527352280215 / 35184372088832))
   \<and> ((9000000000000000000 - 10000000000000000000) / 10000000000000000000 * 100 :: real)
       = - 10
   \<and> map_sum id mom_change
     (kpi_calculations
        \<lparr>columns = [''Month'', ''Revenue'', ''Orders''], Month = [''Dec'', ''Jan'', ''Feb''],
         Revenue = Int64 [5, 1000, 900], Orders = Int64 [7, 50, 40]\<rparr>) = Inr (Fin (- 10))
   \<and> map_sum id mom_change
     (kpi_calculations
        \<lparr>columns = [''Month'', ''Revenue'', ''Orders''], Month = [''Dec'', ''Jan'', ''Feb''],
         Revenue = UInt64 [18446744073709551615, 1000, 900], Orders = Int64 [7, 50, 40]\<rparr>)
       = Inr (Fin 1844674407370955264)"
  by (simp add: app_eval float_eval)

text \<open>
  Claim C8, as amended. For every data frame with two or more rows the KPI calculations
  take the current values from the last row and the previous values from the
  second-to-last row. Rows before the last two have no effect on any computed field other
  than through the dtype that the whole column has: two frames whose Revenue columns end
  in the same two cells of the same dtype, and whose Orders columns do, yield the same
  result. Each percentage delta is \<open>(current - previous) / previous * 100\<close> evaluated in
  numpy arithmetic: the difference is taken in the dtype of the column (for integer cells
  it is the exact difference while that stays in range, and wraps around modulo \<open>2^64\<close>
  otherwise), and the conversion to binary64, the quotient and the product are each rounded
  to the nearest binary64 number.
\<close>

theorem kpi_last_two_cells:
  assumes "cells (Revenue df) = ps @ [p, c]" and "cells (Orders df) = qs @ [po, co]"
    and "cells (Revenue df') = ps' @ [p, c]" and "cells (Orders df') = qs' @ [po, co]"
  shows "kpi_calculations df = kpi_calculations df'
     \<and> (\<exists>k. kpi_calculations df = Inr k
          \<and> current_revenue k = c \<and> previous_revenue k = p
          \<and> current_orders k = co \<and> previous_orders k = po
          \<and> dtype_of c = dtype_of p \<and> dtype_of co = dtype_of po
          \<and> current_aov k = np_div (to_f64 c) (to_f64 co)
          \<and> previous_aov k = np_div (to_f64 p) (to_f64 po)
          \<and> mom_change k =
              np_mul (np_div (to_f64 (np_minus c p)) (to_f64 p)) (Fin 100)
          \<and> order_change k =
              np_mul (np_div (to_f64 (np_minus co po)) (to_f64 po)) (Fin 100)
          \<and> aov_change k =
              np_mul (np_div (np_sub (current_aov k) (previous_aov k)) (previous_aov k))
                (Fin 100))
     \<and> (\<forall>u w. p = I64 u \<and> c = I64 w \<and> - (2 ^ 63) \<le> sint w - sint u
            \<and> sint w - sint u < 2 ^ 63 \<longrightarrow>
            to_f64 (np_minus c p) = f64 (of_int (sint w - sint u)))
     \<and> (\<forall>u w. p = U64 u \<and> c = U64 w \<and> uint u \<le> uint w \<longrightarrow>
            to_f64 (np_minus c p) = f64 (of_int (uint w - uint u)))
     \<and> (\<forall>x y. p = F64 x \<and> c = F64 y \<longrightarrow> to_f64 (np_minus c p) = np_sub y x)"
proof -
  have r: "dtype_of c = dtype_of p"
    by (rule cells_dtype [of _ "Revenue df"]) (simp_all add: assms)
  have o: "dtype_of co = dtype_of po"
    by (rule cells_dtype [of _ "Orders df"]) (simp_all add: assms)
  show ?thesis
    unfolding kpi_calculations_last_two [OF assms(1,2)] kpi_calculations_last_two [OF assms(3,4)]
    using r o np_minus_int64_exact np_minus_uint64_exact
    by (auto simp: np_truediv_def)
qed

theorem kpi_last_two_cells_witness:
  "kpi_calculations
     \<lparr>columns = [''Month'', ''Revenue'', ''Orders''], Month = [''Dec'', ''Jan'', ''Feb''],
      Revenue = Int64 [5, 1000, 900], Orders = Int64 [7, 50, 40]\<rparr> =
   Inr \<lparr>current_revenue = I64 900, previous_revenue = I64 1000, mom_change = Fin (- 10),
        current_orders = I64 40, previous_orders = I64 50, order_change = Fin (- 20),
        current_aov = Fin 22.5, previous_aov = Fin 20, aov_change = Fin 12.5\<rparr>
   \<and> map_sum id mom_change
       (kpi_calculations
          \<lparr>columns = [''Month'', ''Revenue'', ''Orders''], Month = [''Jan'', ''Feb''],
           Revenue = UInt64 [900, 1000], Orders = Int64 [50, 40]\<rparr>)
       = Inr (Fin (3127499741229511 / 281474976710656))
   \<and> map_sum id mom_change
       (kpi_calculations
          \<lparr>columns = [''Month'', ''Revenue'', ''Orders''], Month = [''Jan'', ''Feb''],
           Revenue = Float64 [Fin 0.1, Fin 0.3], Orders = Int64 [50, 40]\<rparr>)
       = Inr (Fin (7036874417766399 / 35184372088832))"
proof -
  let ?cs = "[''Month'', ''Revenue'', ''Orders'']"
  let ?a = "\<lparr>columns = ?cs, Month = [''Dec'', ''Jan'', ''Feb''],
      Revenue = Int64 [5, 1000, 900], Orders = Int64 [7, 50, 40]\<rparr>"
  let ?b = "\<lparr>columns = ?cs, Month = [''Jan'', ''Feb''],
           Revenue = UInt64 [900, 1000], Orders = Int64 [50, 40]\<rparr>"
  let ?c = "\<lparr>columns = ?cs, Month = [''Jan'', ''Feb''],
           Revenue = Float64 [Fin 0.1, Fin 0.3], Orders = Int64 [50, 40]\<rparr>"
  have ra: "cells (Revenue ?a) = [I64 5] @ [I64 1000, I64 900]"
    and oa: "cells (Orders ?a) = [I64 7] @ [I64 50, I64 40]"
    and rb: "cells (Revenue ?b) = [] @ [U64 900, U64 1000]"
    and ob: "cells (Orders ?b) = [] @ [I64 50, I64 40]"
    and rc: "cells (Revenue ?c) = [] @ [F64 (f64 0.1), F64 (f64 0.3)]"
    and oc: "cells (Orders ?c) = [] @ [I64 50, I64 40]"
    by simp_all
  have "\<exists>k. kpi_calculations ?a = Inr k
      \<and> current_revenue k = I64 900 \<and> previous_revenue k = I64 1000
      \<and> mom_change k = Fin (- 10)
      \<and> current_orders k = I64 40 \<and> previous_orders k = I64 50
      \<and> order_change k = Fin (- 20)
      \<and> current_aov k = Fin 22.5 \<and> previous_aov k = Fin 20
      \<and> aov_change k = Fin 12.5"
    using kpi_last_two_cells [OF ra oa ra oa, THEN conjunct2]
    by (auto simp: float_eval)
  then obtain k where "kpi_calculations ?a = Inr k"
      "current_revenue k = I64 900" "previous_revenue k = I64 1000"
      "mom_change k = Fin (- 10)"
      "current_orders k = I64 40" "previous_orders k = I64 50"
      "order_change k = Fin (- 20)"
      "current_aov k = Fin 22.5" "previous_aov k = Fin 20"
      "aov_change k = Fin 12.5"
    by blast
  then have a: "kpi_calculations ?a =
      Inr \<lparr>current_revenue = I64 900, previous_revenue = I64 1000, mom_change = Fin (- 10),
        current_orders = I64 40, previous_orders = I64 50, order_change = Fin (- 20),
        current_aov = Fin 22.5, previous_aov = Fin 20, aov_change = Fin 12.5\<rparr>"
    by (cases k) simp
  have "\<exists>k. kpi_calculations ?b = Inr k
      \<and> mom_change k = Fin (3127499741229511 / 281474976710656)"
    using kpi_last_two_cells [OF rb ob rb ob, THEN conjunct2]
    by (auto simp: float_eval)
  then have b: "map_sum id mom_change (kpi_calculations ?b)
      = Inr (Fin (3127499741229511 / 281474976710656))"
    by auto
  have "\<exists>k. kpi_calculations ?c = Inr k
      \<and> mom_change k = Fin (7036874417766399 / 35184372088832)"
    using kpi_last_two_cells [OF rc oc rc oc, THEN conjunct2]
    by (auto simp: float_eval)
  then have c: "map_sum id mom_change (kpi_calculations ?c)
      = Inr (Fin (7036874417766399 / 35184372088832))"
    by auto
  from a b c show ?thesis by simp
qed

section \<open>The forecast\<close>




lemma app_forecast:
  assumes "app polyfit (Some df) = Inr d"
  shows "revenue_forecast polyfit df = Inr (forecast_revenue d)"
  using assms
  by (auto simp: app_def Let_def split: if_splits sum.splits)




end
